theory Spec2Isabelle
  imports Complex_Main
begin

section \<open>Numbers and arrays\<close>

text \<open>
  The indicator worker computes on JavaScript numbers. They are modelled as real
  numbers: the development is about the arithmetic the code writes down, not about
  rounding, NaN or infinities. Arrays are lists; every array read of the modelled
  functions is inside the bounds under the guard that precedes it. The period and
  lookback parameters are natural numbers; the worker calls the functions with their
  defaults (14 for the RSI, 20 for the bands, 5 for the slope, 10 for the trend), and
  a period of 0, where the code would divide by zero, is outside the model.
\<close>

definition orZero :: "real \<Rightarrow> real" where
  \<comment> \<open>\<^verbatim>\<open>x || 0\<close> on a number: a falsy number is replaced by 0.\<close>
  "orZero x = (if x = 0 then 0 else x)"

definition lastOrZero :: "real list \<Rightarrow> real" where
  \<comment> \<open>\<^verbatim>\<open>xs[xs.length - 1] || 0\<close>: reading an empty array gives undefined, hence 0.\<close>
  "lastOrZero xs = (if xs = [] then 0 else orZero (last xs))"

definition sliceLast :: "nat \<Rightarrow> 'a list \<Rightarrow> 'a list" where
  \<comment> \<open>\<^verbatim>\<open>xs.slice(-n)\<close>: the last n elements, or all of a shorter array; \<^verbatim>\<open>slice(-0)\<close>
      is \<^verbatim>\<open>slice(0)\<close>, the whole array.\<close>
  "sliceLast n xs = (if n = 0 then xs else drop (length xs - n) xs)"

section \<open>Indicator engine\<close>

subsection \<open>RSI\<close>

function rsiLoop :: "real list \<Rightarrow> nat \<Rightarrow> real \<times> real \<Rightarrow> real \<times> real" where
  "rsiLoop prices i (gains, losses) =
     (if i < length prices then
        (let change = prices ! i - prices ! (i - 1)
         in if change > 0 then rsiLoop prices (i + 1) (gains + change, losses)
            else rsiLoop prices (i + 1) (gains, losses + \<bar>change\<bar>))
      else (gains, losses))"
  by pat_completeness auto
termination
  by (relation "measure (\<lambda>(p, i, acc). length p - i)") auto

declare rsiLoop.simps [simp del]

definition calculateRSI :: "real list \<Rightarrow> nat \<Rightarrow> real" where
  "calculateRSI prices period =
     (if length prices < period + 1 then 50
      else
        let (gains, losses) = rsiLoop prices (length prices - period) (0, 0);
            avgGain = gains / real period;
            avgLoss = losses / real period
        in if avgLoss = 0 then 100
           else (let rs = avgGain / avgLoss in 100 - 100 / (1 + rs)))"

text \<open>
  The quantities the RSI is specified by: the last \<open>period\<close> consecutive price
  changes, and the part of a change that counts as gain or as loss.
\<close>

definition lastDeltas :: "real list \<Rightarrow> nat \<Rightarrow> real list" where
  "lastDeltas prices period =
     map (\<lambda>i. prices ! i - prices ! (i - 1)) [length prices - period..<length prices]"

definition gainOf :: "real \<Rightarrow> real" where
  "gainOf d = (if d > 0 then d else 0)"

definition lossOf :: "real \<Rightarrow> real" where
  "lossOf d = (if d < 0 then - d else 0)"

subsection \<open>EMA and MACD\<close>

function emaLoop :: "real list \<Rightarrow> real \<Rightarrow> nat \<Rightarrow> real \<Rightarrow> real" where
  "emaLoop prices multiplier i ema =
     (if i < length prices
      then emaLoop prices multiplier (i + 1) ((prices ! i - ema) * multiplier + ema)
      else ema)"
  by pat_completeness auto
termination
  by (relation "measure (\<lambda>(p, m, i, e). length p - i)") auto

declare emaLoop.simps [simp del]

definition calculateEMA :: "real list \<Rightarrow> real \<Rightarrow> real" where
  "calculateEMA prices period =
     (if length prices = 0 then 0
      else
        let multiplier = 2 / (period + 1)
        in emaLoop prices multiplier 1 (prices ! 0))"

record macdResult =
  macd :: real
  signal :: real
  line :: real

definition calculateMACD :: "real list \<Rightarrow> macdResult" where
  "calculateMACD prices =
     (if length prices < 26 then \<lparr>macd = 0, signal = 0, line = 0\<rparr>
      else
        let ema12 = calculateEMA prices 12;
            ema26 = calculateEMA prices 26;
            macdLine = ema12 - ema26;
            signalLine = macdLine * 0.8;
            histogram = macdLine - signalLine
        in \<lparr>macd = histogram, signal = signalLine, line = macdLine\<rparr>)"

text \<open>
  The recurrence the EMA is specified by: seeded with the first sample, every later
  sample moves the average by the multiplier \<open>2 / (period + 1)\<close> times its distance;
  an empty input gives 0.
\<close>

definition emaSpec :: "real \<Rightarrow> real list \<Rightarrow> real" where
  "emaSpec period prices =
     (case prices of
        [] \<Rightarrow> 0
      | p # later \<Rightarrow> foldl (\<lambda>e q. e + 2 / (period + 1) * (q - e)) p later)"

subsection \<open>Bollinger Bands\<close>

record bollingerResult =
  upper :: real
  lower :: real
  middle :: real

definition calculateBollingerBands :: "real list \<Rightarrow> nat \<Rightarrow> bollingerResult" where
  "calculateBollingerBands prices period =
     (if length prices < period then
        (let currentPrice = lastOrZero prices
         in \<lparr>upper = currentPrice, lower = currentPrice, middle = currentPrice\<rparr>)
      else
        let recentPrices = sliceLast period prices;
            mid = foldl (\<lambda>sum price. sum + price) 0 recentPrices / real period;
            variance = foldl (\<lambda>sum price. sum + (price - mid) ^ 2) 0 recentPrices / real period;
            stdDev = sqrt variance;
            up = mid + stdDev * 2;
            low = mid - stdDev * 2
        in \<lparr>upper = up, lower = low, middle = mid\<rparr>)"

section \<open>The CVD store\<close>

type_synonym cvdStore = "string \<rightharpoonup> real list"

definition maxHistoryLength :: nat where
  "maxHistoryLength = 100"

definition getOrEmpty :: "cvdStore \<Rightarrow> string \<Rightarrow> real list" where
  \<comment> \<open>\<^verbatim>\<open>cvdHistory.get(symbol) || []\<close>\<close>
  "getOrEmpty cvdHistory symbol = (case cvdHistory symbol of None \<Rightarrow> [] | Some xs \<Rightarrow> xs)"

definition cvdStep :: "real \<Rightarrow> real \<Rightarrow> real \<Rightarrow> real \<Rightarrow> real" where
  \<comment> \<open>The body shared by both branches of updateCVD: buying pressure adds the volume,
      selling pressure subtracts it, an unchanged price leaves the running value.\<close>
  "cvdStep running prevPrice currentPrice volume =
     (if currentPrice > prevPrice then running + volume
      else if currentPrice < prevPrice then running - volume
      else running)"

function backfillLoop :: "real list \<Rightarrow> real list \<Rightarrow> nat \<Rightarrow> real \<Rightarrow> real list \<Rightarrow> real list" where
  "backfillLoop priceData volumeData i runningCVD cvdValues =
     (if i < min (length priceData) (length volumeData) then
        (let prevPrice = priceData ! (i - 1);
             currentPrice = priceData ! i;
             volume = volumeData ! i;
             runningCVD' = cvdStep runningCVD prevPrice currentPrice volume
         in backfillLoop priceData volumeData (i + 1) runningCVD' (cvdValues @ [runningCVD']))
      else cvdValues)"
  by pat_completeness auto
termination
  by (relation "measure (\<lambda>(p, v, i, r, c). min (length p) (length v) - i)") auto

declare backfillLoop.simps [simp del]

definition trimHistory :: "real list \<Rightarrow> real list" where
  \<comment> \<open>\<^verbatim>\<open>if (len > max) cvdValues.splice(0, len - max)\<close>\<close>
  "trimHistory cvdValues =
     (if length cvdValues > maxHistoryLength
      then drop (length cvdValues - maxHistoryLength) cvdValues
      else cvdValues)"

definition updateCVD :: "string \<Rightarrow> real list \<Rightarrow> real list \<Rightarrow> cvdStore \<Rightarrow> real \<times> cvdStore" where
  "updateCVD symbol priceData volumeData cvdHistory =
     (if length priceData < 2 \<or> length volumeData < 2 then (0, cvdHistory)
      else
        let cvdValues = getOrEmpty cvdHistory symbol;
            pushed =
              (if length cvdValues = 0 then
                 backfillLoop priceData volumeData 1 0 cvdValues
               else
                 let prevPrice = priceData ! (length priceData - 2);
                     currentPrice = priceData ! (length priceData - 1);
                     volume = volumeData ! (length volumeData - 1);
                     lastCVD = lastOrZero cvdValues;
                     newCVD = cvdStep lastCVD prevPrice currentPrice volume
                 in cvdValues @ [newCVD]);
            trimmed = trimHistory pushed
        in (lastOrZero trimmed, cvdHistory(symbol \<mapsto> trimmed)))"

subsection \<open>Slope and trend of the stored series\<close>

function slopeLoop :: "real list \<Rightarrow> nat \<Rightarrow> real \<times> real \<times> real \<times> real \<Rightarrow> real \<times> real \<times> real \<times> real" where
  "slopeLoop recentCVD i (sumX, sumY, sumXY, sumX2) =
     (if i < length recentCVD
      then slopeLoop recentCVD (i + 1)
             (sumX + real i, sumY + recentCVD ! i, sumXY + real i * recentCVD ! i,
              sumX2 + real i * real i)
      else (sumX, sumY, sumXY, sumX2))"
  by pat_completeness auto
termination
  by (relation "measure (\<lambda>(xs, i, acc). length xs - i)") auto

declare slopeLoop.simps [simp del]

definition calculateCVDSlope :: "cvdStore \<Rightarrow> string \<Rightarrow> nat \<Rightarrow> real" where
  "calculateCVDSlope cvdHistory symbol lookbackPeriod =
     (let cvdValues = getOrEmpty cvdHistory symbol
      in if length cvdValues < lookbackPeriod + 1 then 0
         else
           let recentCVD = sliceLast (lookbackPeriod + 1) cvdValues
           in if length recentCVD < 2 then 0
              else
                let n = real (length recentCVD);
                    (sumX, sumY, sumXY, sumX2) = slopeLoop recentCVD 0 (0, 0, 0, 0)
                in (n * sumXY - sumX * sumY) / (n * sumX2 - sumX * sumX))"

datatype cvdTrend = bullish | bearish | neutral

definition calculateCVDTrend :: "cvdStore \<Rightarrow> string \<Rightarrow> nat \<Rightarrow> cvdTrend" where
  "calculateCVDTrend cvdHistory symbol lookbackPeriod =
     (let cvdValues = getOrEmpty cvdHistory symbol
      in if length cvdValues < lookbackPeriod then neutral
         else
           let recentCVD = sliceLast lookbackPeriod cvdValues;
               firstValue = recentCVD ! 0;
               lastValue = recentCVD ! (length recentCVD - 1);
               trendStrength =
                 (lastValue - firstValue) / \<bar>if firstValue = 0 then 1 else firstValue\<bar>
           in if trendStrength > 0.1 then bullish
              else if trendStrength < - 0.1 then bearish
              else neutral)"

subsection \<open>Feeding ticks\<close>

text \<open>
  The worker's message handler calls updateCVD once per message, with the price and
  volume history of that moment. A run over a tick sequence is modelled by the list of
  history lengths of the successive calls: the call at length \<open>k\<close> sees the first
  \<open>k\<close> prices and volumes.
\<close>

definition tickCall :: "string \<Rightarrow> real list \<Rightarrow> real list \<Rightarrow> nat \<Rightarrow> cvdStore \<Rightarrow> cvdStore" where
  "tickCall symbol prices volumes k cvdHistory =
     snd (updateCVD symbol (take k prices) (take k volumes) cvdHistory)"

definition feedTicks :: "string \<Rightarrow> real list \<Rightarrow> real list \<Rightarrow> nat list \<Rightarrow> cvdStore \<Rightarrow> cvdStore" where
  "feedTicks symbol prices volumes ks cvdHistory =
     fold (tickCall symbol prices volumes) ks cvdHistory"

text \<open>
  The series the data model specifies: the cumulative value after tick \<open>k\<close>, starting
  from the anchor 0 at tick 0, and the list of these values for ticks 1 to the end.
\<close>

fun cvdSpecAt :: "real list \<Rightarrow> real list \<Rightarrow> nat \<Rightarrow> real" where
  "cvdSpecAt prices volumes 0 = 0"
| "cvdSpecAt prices volumes (Suc k) =
     (if prices ! Suc k > prices ! k then cvdSpecAt prices volumes k + volumes ! Suc k
      else if prices ! Suc k < prices ! k then cvdSpecAt prices volumes k - volumes ! Suc k
      else cvdSpecAt prices volumes k)"

definition cvdSpecSeries :: "real list \<Rightarrow> real list \<Rightarrow> real list" where
  "cvdSpecSeries prices volumes =
     map (cvdSpecAt prices volumes) [1..<min (length prices) (length volumes)]"

section \<open>Strategy condition evaluator\<close>

record StrategyConditionConfig =
  volumeMultiplier :: real
  rsiMin :: real
  rsiMax :: real
  useMA5 :: bool
  useMA8 :: bool
  useMA13 :: bool
  useMA20 :: bool
  useMA21 :: bool
  useMA34 :: bool
  useMA50 :: bool
  macdLineAboveSignal :: bool
  macdLineAboveZero :: bool
  bollingerMultiplier :: real
  useBollingerUpper :: bool
  useBollingerLower :: bool
  useBollingerMiddle :: bool
  cvdAboveZero :: bool
  cvdSlopePositive :: bool
  cvdLookbackCandles :: real
  takeProfitPercent :: real
  stopLossPercent :: real

text \<open>
  Modelled from the spec: the declaration of the type IndicatorValues (module
  utils/indicators) is not part of the sources. Its fields are those of the spec's
  IndicatorSnapshot, which are the fields of the object the indicator worker posts.
  The MACD triple is the field \<open>macdRecord\<close>, since \<open>macd\<close> already names the
  histogram field of the triple itself.
\<close>

record IndicatorValues =
  rsi :: real
  macdRecord :: macdResult
  ma5 :: real
  ma8 :: real
  ma13 :: real
  ma20 :: real
  ma21 :: real
  ma34 :: real
  ma50 :: real
  bollingerUpper :: real
  bollingerLower :: real
  bollingerMiddle :: real
  volume :: real
  avgVolume :: real
  volumeSpike :: bool
  price :: real
  openInterest :: real
  cvd :: real
  cvdTrendOf :: cvdTrend
  cvdSlope :: real

type_synonym StrategyConditions = "(string \<times> bool) list"

definition everyBoolean :: "StrategyConditions \<Rightarrow> bool" where
  \<comment> \<open>\<^verbatim>\<open>Object.values(conditions).every(Boolean)\<close>\<close>
  "everyBoolean conditions = list_all (\<lambda>b. b) (map snd conditions)"

datatype signalKind = LONG | WAIT

record strategyResult =
  entryPrice :: real
  takeProfit :: real
  stopLoss :: real
  conditions :: StrategyConditions
  allConditionsMet :: bool
  signalOf :: signalKind

definition checkIntradayConditions ::
    "StrategyConditionConfig \<Rightarrow> real \<Rightarrow> IndicatorValues \<Rightarrow> strategyResult" where
  "checkIntradayConditions config currentPrice indicators =
     (let entry = currentPrice;
          tp = entry * (1 + takeProfitPercent config / 100);
          sl = entry * (1 - stopLossPercent config / 100);
          bollingerCondition =
            (if useBollingerLower config then
               (let bollingerLowerValue = orZero (bollingerLower indicators)
                in currentPrice \<le> bollingerLowerValue * bollingerMultiplier config)
             else True);
          macdCondition =
            (if macdLineAboveSignal config then
               (let macdLineValue = orZero (line (macdRecord indicators));
                    macdSignalValue = orZero (signal (macdRecord indicators));
                    c = macdLineValue > macdSignalValue
                in if macdLineAboveZero config then c \<and> macdLineValue > 0 else c)
             else True);
          rsiValue = orZero (rsi indicators);
          rsiCondition = (rsiValue \<ge> rsiMin config \<and> rsiValue \<le> rsiMax config);
          maCondition =
            (if useMA20 config \<and> useMA34 config then
               (let ma20Value = orZero (ma20 indicators);
                    ma34Value = orZero (ma34 indicators)
                in currentPrice > ma34Value \<and> ma20Value > ma34Value)
             else True);
          volumeValue = orZero (volume indicators);
          avgVolumeValue = orZero (avgVolume indicators);
          volumeCondition = (volumeValue > avgVolumeValue * volumeMultiplier config);
          cvdCondition =
            (if cvdSlopePositive config then
               (let cvdSlopeValue = orZero (cvdSlope indicators);
                    c = cvdSlopeValue > 0
                in if cvdAboveZero config
                   then (let cvdValue = orZero (cvd indicators) in c \<and> cvdValue > 0)
                   else c)
             else True);
          conds =
            [(''bollingerBands'', bollingerCondition),
             (''macd'', macdCondition),
             (''rsi'', rsiCondition),
             (''movingAverages'', maCondition),
             (''volume'', volumeCondition),
             (''cvd'', cvdCondition)];
          allMet = everyBoolean conds
      in \<lparr>entryPrice = entry, takeProfit = tp, stopLoss = sl, conditions = conds,
          allConditionsMet = allMet, signalOf = (if allMet then LONG else WAIT)\<rparr>)"

definition checkScalpingConditions ::
    "StrategyConditionConfig \<Rightarrow> real \<Rightarrow> IndicatorValues \<Rightarrow> strategyResult" where
  "checkScalpingConditions config currentPrice indicators =
     (let entry = currentPrice;
          tp = entry * (1 + takeProfitPercent config / 100);
          sl = entry * (1 - stopLossPercent config / 100);
          rsiValue = orZero (rsi indicators);
          rsiCondition = (rsiValue \<ge> rsiMin config \<and> rsiValue \<le> rsiMax config);
          maCondition =
            (if useMA8 config \<and> useMA21 config then
               (let ma8Value = orZero (ma8 indicators);
                    ma21Value = orZero (ma21 indicators)
                in ma8Value > ma21Value)
             else True);
          bollingerCondition =
            (if useBollingerLower config then
               (let bollingerLowerValue = orZero (bollingerLower indicators)
                in currentPrice \<le> bollingerLowerValue * bollingerMultiplier config)
             else True);
          macdCondition =
            (if macdLineAboveSignal config then
               (let macdLineValue = orZero (line (macdRecord indicators));
                    macdSignalValue = orZero (signal (macdRecord indicators));
                    c = macdLineValue > macdSignalValue
                in if macdLineAboveZero config then c \<and> macdLineValue > 0 else c)
             else True);
          volumeValue = orZero (volume indicators);
          avgVolumeValue = orZero (avgVolume indicators);
          volumeCondition = (volumeValue > avgVolumeValue * volumeMultiplier config);
          cvdCondition =
            (if cvdSlopePositive config then
               (let cvdSlopeValue = orZero (cvdSlope indicators);
                    c = cvdSlopeValue > 0
                in if cvdAboveZero config
                   then (let cvdValue = orZero (cvd indicators) in c \<and> cvdValue > 0)
                   else c)
             else True);
          conds =
            [(''rsi'', rsiCondition),
             (''movingAverages'', maCondition),
             (''bollingerBands'', bollingerCondition),
             (''macd'', macdCondition),
             (''volume'', volumeCondition),
             (''cvd'', cvdCondition)];
          allMet = everyBoolean conds
      in \<lparr>entryPrice = entry, takeProfit = tp, stopLoss = sl, conditions = conds,
          allConditionsMet = allMet, signalOf = (if allMet then LONG else WAIT)\<rparr>)"

section \<open>Edge detection and signal hand-off\<close>

record strategyState =
  previousAllGreen :: bool
  currentConditions :: StrategyConditions

type_synonym SymbolStrategyState = "string \<rightharpoonup> (string \<rightharpoonup> strategyState)"

text \<open>
  The tracker keeps its state in plain objects, indexed by the symbol and then by the
  strategy. A lookup in a plain object also finds what the object inherits from
  \<^verbatim>\<open>Object.prototype\<close>, so for a key that names a property of the prototype the code
  finds an inherited value, skips the initialisation and shares state between pairs. The
  maps below are these objects for the other keys, the plain ones, which are the keys
  the program passes (ticker symbols and the strategy names). The model of
  updateConditions and isAllGreen is the code for plain keys on a plain state, that is a
  state holding no entry under a prototype key at either level; the properties of the
  tracker are stated for those.
\<close>

definition objectPrototypeKeys :: "string list" where
  "objectPrototypeKeys =
     [''__proto__'', ''constructor'', ''hasOwnProperty'', ''isPrototypeOf'',
      ''propertyIsEnumerable'', ''toLocaleString'', ''toString'', ''valueOf'',
      ''__defineGetter__'', ''__defineSetter__'', ''__lookupGetter__'', ''__lookupSetter__'']"

definition plainKey :: "string \<Rightarrow> bool" where
  "plainKey k = (k \<notin> set objectPrototypeKeys)"

definition plainState :: "SymbolStrategyState \<Rightarrow> bool" where
  "plainState state =
     ((\<forall>k\<in>set objectPrototypeKeys. state k = None) \<and>
      (\<forall>m\<in>ran state. \<forall>k\<in>set objectPrototypeKeys. m k = None))"

datatype logEntry = AllGreen string string
  \<comment> \<open>\<^verbatim>\<open>fileLogger.logAllGreen(strategy, symbol)\<close>\<close>

definition updateConditions ::
    "string \<Rightarrow> string \<Rightarrow> StrategyConditions \<Rightarrow> SymbolStrategyState
       \<Rightarrow> logEntry list \<times> SymbolStrategyState" where
  "updateConditions symbol strategy conds state =
     (let state1 = (case state symbol of None \<Rightarrow> state(symbol \<mapsto> Map.empty) | Some m \<Rightarrow> state);
          bySymbol = (case state1 symbol of None \<Rightarrow> Map.empty | Some m \<Rightarrow> m);
          bySymbol1 =
            (case bySymbol strategy of
               None \<Rightarrow> bySymbol(strategy \<mapsto> \<lparr>previousAllGreen = False, currentConditions = []\<rparr>)
             | Some s \<Rightarrow> bySymbol);
          strategyState =
            (case bySymbol1 strategy of
               None \<Rightarrow> \<lparr>previousAllGreen = False, currentConditions = []\<rparr>
             | Some s \<Rightarrow> s);
          allGreen = everyBoolean conds;
          logged =
            (if allGreen \<and> \<not> previousAllGreen strategyState then [AllGreen strategy symbol]
             else []);
          strategyState' = strategyState\<lparr>previousAllGreen := allGreen, currentConditions := conds\<rparr>
      in (logged, state1(symbol \<mapsto> bySymbol1(strategy \<mapsto> strategyState'))))"

definition isAllGreen :: "SymbolStrategyState \<Rightarrow> string \<Rightarrow> string \<Rightarrow> bool" where
  "isAllGreen state symbol strategy =
     (case state symbol of
        None \<Rightarrow> False
      | Some m \<Rightarrow> (case m strategy of None \<Rightarrow> False | Some s \<Rightarrow> previousAllGreen s))"

text \<open>
  A run of the tracker over the condition vectors of successive evaluations of one
  (symbol, strategy) pair; the result lists, per evaluation, what that call logged.
\<close>

fun trackerRun ::
    "string \<Rightarrow> string \<Rightarrow> StrategyConditions list \<Rightarrow> SymbolStrategyState \<Rightarrow> logEntry list list" where
  "trackerRun symbol strategy [] state = []"
| "trackerRun symbol strategy (c # cs) state =
     (let (logged, state') = updateConditions symbol strategy c state
      in logged # trackerRun symbol strategy cs state')"

text \<open>
  The block of the strategy components that follows the condition check:
  \<^verbatim>\<open>if (strategy.allConditionsMet) { ...; signalPersistence.saveSignal(signal); }\<close>.
  The persistence module is not part of the sources; the model records the calls made to
  it, with the fields of the signal that come from the evaluation.
\<close>

datatype sinkCall = SaveSignal string string signalKind real real real StrategyConditions

definition saveSignalBlock :: "string \<Rightarrow> string \<Rightarrow> strategyResult \<Rightarrow> sinkCall list" where
  "saveSignalBlock symbol strategy result =
     (if allConditionsMet result
      then [SaveSignal symbol strategy (signalOf result) (entryPrice result) (takeProfit result)
              (stopLoss result) (conditions result)]
      else [])"

definition IntradayStrategy ::
    "StrategyConditionConfig \<Rightarrow> string \<Rightarrow> real \<Rightarrow> IndicatorValues \<Rightarrow> sinkCall list" where
  "IntradayStrategy config symbol currentPrice indicators =
     saveSignalBlock symbol ''intraday'' (checkIntradayConditions config currentPrice indicators)"

definition ScalpingStrategy ::
    "StrategyConditionConfig \<Rightarrow> string \<Rightarrow> real \<Rightarrow> IndicatorValues \<Rightarrow> SymbolStrategyState
       \<Rightarrow> sinkCall list \<times> logEntry list \<times> SymbolStrategyState" where
  "ScalpingStrategy config symbol currentPrice indicators state =
     (let result = checkScalpingConditions config currentPrice indicators;
          (logged, state') = updateConditions symbol ''scalping'' (conditions result) state
      in (saveSignalBlock symbol ''scalping'' result, logged, state'))"

subsection \<open>Sequences of evaluations\<close>

text \<open>
  A strategy component is evaluated once per render, with the current price and the
  indicator snapshot of that moment. The runs below evaluate a component over a list of
  such inputs; the aggregates are the aggregate decisions of the same evaluations, and
  a rising edge is an index where the aggregate is true and was not true just before.
\<close>

definition intradayRun ::
    "StrategyConditionConfig \<Rightarrow> string \<Rightarrow> (real \<times> IndicatorValues) list \<Rightarrow> sinkCall list list" where
  "intradayRun config symbol inputs =
     map (\<lambda>(currentPrice, indicators). IntradayStrategy config symbol currentPrice indicators) inputs"

definition intradayAggregates ::
    "StrategyConditionConfig \<Rightarrow> (real \<times> IndicatorValues) list \<Rightarrow> bool list" where
  "intradayAggregates config inputs =
     map (\<lambda>(currentPrice, indicators).
            allConditionsMet (checkIntradayConditions config currentPrice indicators)) inputs"

definition scalpingAggregates ::
    "StrategyConditionConfig \<Rightarrow> (real \<times> IndicatorValues) list \<Rightarrow> bool list" where
  "scalpingAggregates config inputs =
     map (\<lambda>(currentPrice, indicators).
            allConditionsMet (checkScalpingConditions config currentPrice indicators)) inputs"

fun scalpingRun ::
    "StrategyConditionConfig \<Rightarrow> string \<Rightarrow> (real \<times> IndicatorValues) list \<Rightarrow> SymbolStrategyState
       \<Rightarrow> (sinkCall list \<times> logEntry list) list" where
  "scalpingRun config symbol [] state = []"
| "scalpingRun config symbol ((currentPrice, indicators) # rest) state =
     (let (saved, logged, state') = ScalpingStrategy config symbol currentPrice indicators state
      in (saved, logged) # scalpingRun config symbol rest state')"

definition risingEdge :: "bool list \<Rightarrow> nat \<Rightarrow> bool" where
  "risingEdge aggregate i = (aggregate ! i \<and> (i = 0 \<or> \<not> aggregate ! (i - 1)))"

text \<open>
  A configuration with every optional condition flag off, snapshots that differ in the
  RSI only, and six evaluations whose aggregate decisions are false, true, true, true,
  false, true.
\<close>

definition flagsOffConfig :: StrategyConditionConfig where
  "flagsOffConfig =
     \<lparr>volumeMultiplier = 1, rsiMin = 0, rsiMax = 40,
      useMA5 = False, useMA8 = False, useMA13 = False, useMA20 = False, useMA21 = False,
      useMA34 = False, useMA50 = False,
      macdLineAboveSignal = False, macdLineAboveZero = False,
      bollingerMultiplier = 1, useBollingerUpper = False, useBollingerLower = False,
      useBollingerMiddle = False,
      cvdAboveZero = False, cvdSlopePositive = False, cvdLookbackCandles = 5,
      takeProfitPercent = 2, stopLossPercent = 1\<rparr>"

definition snapshotWithRsi :: "real \<Rightarrow> IndicatorValues" where
  "snapshotWithRsi r =
     \<lparr>rsi = r, macdRecord = \<lparr>macd = 0, signal = 0, line = 0\<rparr>,
      ma5 = 0, ma8 = 0, ma13 = 0, ma20 = 0, ma21 = 0, ma34 = 0, ma50 = 0,
      bollingerUpper = 0, bollingerLower = 0, bollingerMiddle = 0,
      volume = 2, avgVolume = 1, volumeSpike = False, price = 100, openInterest = 0,
      cvd = 0, cvdTrendOf = neutral, cvdSlope = 0\<rparr>"

definition sixEvaluations :: "(real \<times> IndicatorValues) list" where
  "sixEvaluations =
     [(100, snapshotWithRsi 50), (100, snapshotWithRsi 30), (100, snapshotWithRsi 30),
      (100, snapshotWithRsi 30), (100, snapshotWithRsi 50), (100, snapshotWithRsi 30)]"

section \<open>Basic facts\<close>

lemma orZero_id [simp]: "orZero x = x"
  by (simp add: orZero_def)

lemma lastOrZero_last: "xs \<noteq> [] \<Longrightarrow> lastOrZero xs = last xs"
  by (simp add: lastOrZero_def)

lemma trimHistory_sliceLast: "trimHistory xs = sliceLast maxHistoryLength xs"
  by (simp add: trimHistory_def sliceLast_def maxHistoryLength_def)

lemma length_sliceLast: "0 < m \<Longrightarrow> length (sliceLast m xs) = min (length xs) m"
  by (simp add: sliceLast_def)

lemma sliceLast_nonempty: "0 < n \<Longrightarrow> xs \<noteq> [] \<Longrightarrow> sliceLast n xs \<noteq> []"
  by (cases xs) (auto simp add: sliceLast_def)

lemma last_sliceLast: "0 < n \<Longrightarrow> xs \<noteq> [] \<Longrightarrow> last (sliceLast n xs) = last xs"
  by (cases xs) (auto simp add: sliceLast_def)

lemma sliceLast_snoc: "0 < n \<Longrightarrow> sliceLast n (sliceLast n xs @ [x]) = sliceLast n (xs @ [x])"
proof (cases "length xs \<le> n")
  case True
  then show ?thesis by (simp add: sliceLast_def)
next
  case False
  then have "Suc (length xs) - (length xs - n + n) + (length xs - n) = Suc (length xs) - n"
    by simp
  then show ?thesis by (simp add: sliceLast_def)
qed

section \<open>Indicator engine: RSI\<close>

lemma rsiLoop_sums:
  "rsiLoop ps i (g, l) =
     (g + sum_list (map (\<lambda>j. gainOf (ps ! j - ps ! (j - 1))) [i..<length ps]),
      l + sum_list (map (\<lambda>j. lossOf (ps ! j - ps ! (j - 1))) [i..<length ps]))"
proof (induction ps i "(g, l)" arbitrary: g l rule: rsiLoop.induct)
  case (1 ps i g l)
  show ?case
  proof (cases "i < length ps")
    case False
    then show ?thesis by (simp add: rsiLoop.simps [of ps i])
  next
    case True
    let ?d = "ps ! i - ps ! (i - 1)"
    show ?thesis
    proof (cases "?d > 0")
      case pos: True
      have "rsiLoop ps i (g, l) = rsiLoop ps (i + 1) (g + ?d, l)"
        using True pos by (simp add: rsiLoop.simps [of ps i])
      then show ?thesis
        using True pos "1.hyps"(1) [OF True refl pos]
        by (simp add: upt_conv_Cons gainOf_def lossOf_def)
    next
      case neg: False
      have "rsiLoop ps i (g, l) = rsiLoop ps (i + 1) (g, l + \<bar>?d\<bar>)"
        using True neg by (simp add: rsiLoop.simps [of ps i])
      then show ?thesis
        using True neg "1.hyps"(2) [OF True refl neg]
        by (simp add: upt_conv_Cons gainOf_def lossOf_def)
    qed
  qed
qed

lemma lossOf_zero_iff: "lossOf d = 0 \<longleftrightarrow> 0 \<le> d"
  by (auto simp add: lossOf_def)

lemma sum_lossOf_zero_iff:
  "sum_list (map lossOf ds) = 0 \<longleftrightarrow> (\<forall>d\<in>set ds. 0 \<le> d)"
proof -
  have "sum_list (map lossOf ds) = 0 \<longleftrightarrow> (\<forall>x\<in>set (map lossOf ds). x = 0)"
    by (rule sum_list_nonneg_eq_0_iff) (auto simp add: lossOf_def)
  also have "\<dots> \<longleftrightarrow> (\<forall>d\<in>set ds. lossOf d = 0)"
    by simp
  also have "\<dots> \<longleftrightarrow> (\<forall>d\<in>set ds. 0 \<le> d)"
    by (simp only: lossOf_zero_iff)
  finally show ?thesis .
qed

lemma calculateRSI_sums:
  assumes "period + 1 \<le> length ps"
  shows "calculateRSI ps period =
     (let avgGain = sum_list (map gainOf (lastDeltas ps period)) / real period;
          avgLoss = sum_list (map lossOf (lastDeltas ps period)) / real period
      in if avgLoss = 0 then 100 else 100 - 100 / (1 + avgGain / avgLoss))"
  using assms
  by (simp add: calculateRSI_def rsiLoop_sums lastDeltas_def Let_def comp_def)

text \<open>
  C5. With fewer than 15 prices (period 14 plus one) calculateRSI returns exactly 50.
  With at least 15 prices, if none of the last 14 consecutive changes is negative the
  average loss is zero and the result is exactly 100; otherwise the result is
  \<open>100 - 100 / (1 + avgGain / avgLoss)\<close>, the averages being the sums of the gains
  and of the losses among the last 14 changes, divided by 14.
\<close>

theorem calculateRSI_cases:
  "(length prices < 15 \<longrightarrow> calculateRSI prices 14 = 50) \<and>
   (15 \<le> length prices \<and> (\<forall>d\<in>set (lastDeltas prices 14). 0 \<le> d) \<longrightarrow>
      calculateRSI prices 14 = 100) \<and>
   (15 \<le> length prices \<and> (\<exists>d\<in>set (lastDeltas prices 14). d < 0) \<longrightarrow>
      calculateRSI prices 14 =
        100 - 100 / (1 + (sum_list (map gainOf (lastDeltas prices 14)) / 14) /
                         (sum_list (map lossOf (lastDeltas prices 14)) / 14)))"
proof (intro conjI impI)
  assume "length prices < 15"
  then show "calculateRSI prices 14 = 50" by (simp add: calculateRSI_def)
next
  assume a: "15 \<le> length prices \<and> (\<forall>d\<in>set (lastDeltas prices 14). 0 \<le> d)"
  then have "sum_list (map lossOf (lastDeltas prices 14)) = 0"
    by (simp add: sum_lossOf_zero_iff)
  with a show "calculateRSI prices 14 = 100"
    by (simp add: calculateRSI_sums)
next
  assume a: "15 \<le> length prices \<and> (\<exists>d\<in>set (lastDeltas prices 14). d < 0)"
  then have "sum_list (map lossOf (lastDeltas prices 14)) \<noteq> 0"
    using sum_lossOf_zero_iff [of "lastDeltas prices 14"] by (auto simp add: not_le)
  with a show "calculateRSI prices 14 =
        100 - 100 / (1 + (sum_list (map gainOf (lastDeltas prices 14)) / 14) /
                         (sum_list (map lossOf (lastDeltas prices 14)) / 14))"
    by (simp add: calculateRSI_sums Let_def)
qed

theorem calculateRSI_cases_witness:
  "length [1, 2, 3 :: real] < 15 \<and> calculateRSI [1, 2, 3] 14 = 50 \<and>
   15 \<le> length [1, 2, 3, 4, 5, 6, 7, 8, 9, 10, 11, 12, 13, 14, 15 :: real] \<and>
   list_all (\<lambda>d. 0 \<le> d) (lastDeltas [1, 2, 3, 4, 5, 6, 7, 8, 9, 10, 11, 12, 13, 14, 15] 14) \<and>
   calculateRSI [1, 2, 3, 4, 5, 6, 7, 8, 9, 10, 11, 12, 13, 14, 15] 14 = 100 \<and>
   15 \<le> length [2, 1, 1, 1, 1, 1, 1, 1, 1, 1, 1, 1, 1, 1, 2 :: real] \<and>
   list_ex (\<lambda>d. d < 0) (lastDeltas [2, 1, 1, 1, 1, 1, 1, 1, 1, 1, 1, 1, 1, 1, 2] 14) \<and>
   calculateRSI [2, 1, 1, 1, 1, 1, 1, 1, 1, 1, 1, 1, 1, 1, 2] 14 = 50"
proof -
  let ?up = "[1, 2, 3, 4, 5, 6, 7, 8, 9, 10, 11, 12, 13, 14, 15 :: real]"
  let ?dip = "[2, 1, 1, 1, 1, 1, 1, 1, 1, 1, 1, 1, 1, 1, 2 :: real]"
  have short: "length [1, 2, 3 :: real] < 15" by simp
  have up: "15 \<le> length ?up" and dip: "15 \<le> length ?dip" by simp_all
  have dup: "lastDeltas ?up 14 = [1, 1, 1, 1, 1, 1, 1, 1, 1, 1, 1, 1, 1, 1]"
    by (simp add: lastDeltas_def upt_rec)
  have ddip: "lastDeltas ?dip 14 = [- 1, 0, 0, 0, 0, 0, 0, 0, 0, 0, 0, 0, 0, 1]"
    by (simp add: lastDeltas_def upt_rec)
  have nonneg: "\<forall>d\<in>set (lastDeltas ?up 14). 0 \<le> d" by (simp add: dup)
  have neg: "\<exists>d\<in>set (lastDeltas ?dip 14). d < 0" by (simp add: ddip)
  from calculateRSI_cases [of "[1, 2, 3]"] short
  have a: "calculateRSI [1, 2, 3] 14 = 50" by blast
  from calculateRSI_cases [of ?up] up nonneg
  have b: "calculateRSI ?up 14 = 100" by blast
  from calculateRSI_cases [of ?dip] dip neg
  have "calculateRSI ?dip 14 =
        100 - 100 / (1 + (sum_list (map gainOf (lastDeltas ?dip 14)) / 14) /
                         (sum_list (map lossOf (lastDeltas ?dip 14)) / 14))" by blast
  then have c: "calculateRSI ?dip 14 = 50"
    by (simp add: ddip gainOf_def lossOf_def)
  have n1: "list_all (\<lambda>d. 0 \<le> d) (lastDeltas ?up 14)" by (simp add: dup)
  have n2: "list_ex (\<lambda>d. d < 0) (lastDeltas ?dip 14)" by (simp add: ddip)
  from short a up n1 b dip n2 c show ?thesis by (intro conjI)
qed

section \<open>Indicator engine: EMA and MACD\<close>

lemma emaLoop_foldl:
  "emaLoop ps m i e = foldl (\<lambda>e q. e + m * (q - e)) e (drop i ps)"
proof (induction ps m i e rule: emaLoop.induct)
  case (1 ps m i e)
  show ?case
  proof (cases "i < length ps")
    case False
    then show ?thesis by (simp add: emaLoop.simps [of ps m i])
  next
    case True
    have "emaLoop ps m i e = emaLoop ps m (i + 1) ((ps ! i - e) * m + e)"
      using True by (simp add: emaLoop.simps [of ps m i])
    also have "\<dots> = foldl (\<lambda>e q. e + m * (q - e)) ((ps ! i - e) * m + e) (drop (i + 1) ps)"
      by (rule "1.IH" [OF True])
    also have "\<dots> = foldl (\<lambda>e q. e + m * (q - e)) e (ps ! i # drop (Suc i) ps)"
      by (simp add: algebra_simps)
    also have "ps ! i # drop (Suc i) ps = drop i ps"
      using True by (rule Cons_nth_drop_Suc)
    finally show ?thesis .
  qed
qed

lemma calculateEMA_spec: "calculateEMA ps period = emaSpec period ps"
proof (cases ps)
  case Nil
  then show ?thesis by (simp add: calculateEMA_def emaSpec_def)
next
  case (Cons q later)
  then show ?thesis
    by (simp add: calculateEMA_def emaSpec_def emaLoop_foldl Let_def)
qed

text \<open>
  C4. With fewer than 26 prices calculateMACD returns line, signal and macd all 0.
  With at least 26 prices the line is EMA(12) minus EMA(26), both taken over the whole
  sequence by the EMA recurrence, the signal is 0.8 times the line, and macd is the
  line minus the signal.
\<close>

theorem calculateMACD_cases:
  "(length prices < 26 \<longrightarrow> calculateMACD prices = \<lparr>macd = 0, signal = 0, line = 0\<rparr>) \<and>
   (26 \<le> length prices \<longrightarrow>
      line (calculateMACD prices) = calculateEMA prices 12 - calculateEMA prices 26 \<and>
      calculateEMA prices 12 = emaSpec 12 prices \<and>
      calculateEMA prices 26 = emaSpec 26 prices \<and>
      signal (calculateMACD prices) = 0.8 * line (calculateMACD prices) \<and>
      macd (calculateMACD prices) =
        line (calculateMACD prices) - signal (calculateMACD prices))"
proof (intro conjI impI)
  assume "length prices < 26"
  then show "calculateMACD prices = \<lparr>macd = 0, signal = 0, line = 0\<rparr>"
    by (simp add: calculateMACD_def)
next
  assume long: "26 \<le> length prices"
  define l where "l = calculateEMA prices 12 - calculateEMA prices 26"
  from long have short: "\<not> length prices < 26" by simp
  have m: "calculateMACD prices = \<lparr>macd = l - l * 0.8, signal = l * 0.8, line = l\<rparr>"
    unfolding calculateMACD_def Let_def l_def by (simp only: short if_False)
  show "line (calculateMACD prices) = calculateEMA prices 12 - calculateEMA prices 26"
    by (simp add: m l_def)
  show "calculateEMA prices 12 = emaSpec 12 prices"
    by (rule calculateEMA_spec)
  show "calculateEMA prices 26 = emaSpec 26 prices"
    by (rule calculateEMA_spec)
  show "signal (calculateMACD prices) = 0.8 * line (calculateMACD prices)"
    by (simp add: m)
  show "macd (calculateMACD prices) =
        line (calculateMACD prices) - signal (calculateMACD prices)"
    by (simp add: m)
qed

theorem calculateMACD_cases_witness:
  "length [1, 2, 3 :: real] < 26 \<and>
   calculateMACD [1, 2, 3] = \<lparr>macd = 0, signal = 0, line = 0\<rparr> \<and>
   26 \<le> length [0, 0, 0, 0, 0, 0, 0, 0, 0, 0, 0, 0, 0, 0, 0, 0, 0, 0, 0, 0, 0, 0, 0, 0, 0, 351 :: real] \<and>
   line (calculateMACD [0, 0, 0, 0, 0, 0, 0, 0, 0, 0, 0, 0, 0, 0, 0, 0, 0, 0, 0, 0, 0, 0, 0, 0, 0, 351]) = 28 \<and>
   signal (calculateMACD [0, 0, 0, 0, 0, 0, 0, 0, 0, 0, 0, 0, 0, 0, 0, 0, 0, 0, 0, 0, 0, 0, 0, 0, 0, 351]) = 112 / 5 \<and>
   macd (calculateMACD [0, 0, 0, 0, 0, 0, 0, 0, 0, 0, 0, 0, 0, 0, 0, 0, 0, 0, 0, 0, 0, 0, 0, 0, 0, 351]) = 28 / 5"
proof -
  let ?xs = "[0, 0, 0, 0, 0, 0, 0, 0, 0, 0, 0, 0, 0, 0, 0, 0, 0, 0, 0, 0, 0, 0, 0, 0, 0, 351 :: real]"
  have short: "length [1, 2, 3 :: real] < 26" by simp
  have long: "26 \<le> length ?xs" by simp
  have e12: "emaSpec 12 ?xs = 54" by (simp add: emaSpec_def)
  have e26: "emaSpec 26 ?xs = 26" by (simp add: emaSpec_def)
  from calculateMACD_cases [of "[1, 2, 3]"] short
  have a: "calculateMACD [1, 2, 3] = \<lparr>macd = 0, signal = 0, line = 0\<rparr>" by blast
  from calculateMACD_cases [of ?xs] long
  have b: "line (calculateMACD ?xs) = calculateEMA ?xs 12 - calculateEMA ?xs 26"
    "calculateEMA ?xs 12 = emaSpec 12 ?xs" "calculateEMA ?xs 26 = emaSpec 26 ?xs"
    "signal (calculateMACD ?xs) = 0.8 * line (calculateMACD ?xs)"
    "macd (calculateMACD ?xs) = line (calculateMACD ?xs) - signal (calculateMACD ?xs)"
    by blast+
  have l: "line (calculateMACD ?xs) = 28" using b(1,2,3) e12 e26 by simp
  have s: "signal (calculateMACD ?xs) = 112 / 5" using b(4) l by simp
  have m: "macd (calculateMACD ?xs) = 28 / 5" using b(5) l s by simp
  from short a long l s m show ?thesis by (intro conjI)
qed

section \<open>Indicator engine: Bollinger Bands\<close>

lemma foldl_plus_sum_list:
  "foldl (\<lambda>acc x. acc + f x) a xs = a + sum_list (map f (xs :: real list))"
  by (induction xs arbitrary: a) (simp_all add: add.assoc)

text \<open>
  C7. With fewer than 20 prices all three bands are the current price, the last element
  of the sequence (0 for an empty sequence). With at least 20 prices the middle band is
  the arithmetic mean of the last 20 prices, and the upper and lower bands are the mean
  plus and minus twice the population standard deviation of those 20 prices.
\<close>

theorem calculateBollingerBands_cases:
  "(length prices < 20 \<longrightarrow>
      calculateBollingerBands prices 20 =
        (let currentPrice = (if prices = [] then 0 else last prices)
         in \<lparr>upper = currentPrice, lower = currentPrice, middle = currentPrice\<rparr>)) \<and>
   (20 \<le> length prices \<longrightarrow>
      (let recent = sliceLast 20 prices;
           mean = sum_list recent / 20;
           sd = sqrt (sum_list (map (\<lambda>p. (p - mean) ^ 2) recent) / 20)
       in length recent = 20 \<and>
          middle (calculateBollingerBands prices 20) = mean \<and>
          upper (calculateBollingerBands prices 20) = mean + 2 * sd \<and>
          lower (calculateBollingerBands prices 20) = mean - 2 * sd))"
proof (intro conjI impI)
  assume "length prices < 20"
  then show "calculateBollingerBands prices 20 =
        (let currentPrice = (if prices = [] then 0 else last prices)
         in \<lparr>upper = currentPrice, lower = currentPrice, middle = currentPrice\<rparr>)"
    by (simp add: calculateBollingerBands_def lastOrZero_def Let_def)
next
  assume "20 \<le> length prices"
  moreover have "foldl (\<lambda>sum price. sum + price) 0 xs = sum_list xs" for xs :: "real list"
    using foldl_plus_sum_list [of "\<lambda>x. x" 0 xs] by simp
  ultimately show "let recent = sliceLast 20 prices;
           mean = sum_list recent / 20;
           sd = sqrt (sum_list (map (\<lambda>p. (p - mean) ^ 2) recent) / 20)
       in length recent = 20 \<and>
          middle (calculateBollingerBands prices 20) = mean \<and>
          upper (calculateBollingerBands prices 20) = mean + 2 * sd \<and>
          lower (calculateBollingerBands prices 20) = mean - 2 * sd"
    by (simp add: calculateBollingerBands_def Let_def foldl_plus_sum_list length_sliceLast)
qed

theorem calculateBollingerBands_cases_witness:
  "length [3, 4 :: real] < 20 \<and>
   calculateBollingerBands [3, 4] 20 = \<lparr>upper = 4, lower = 4, middle = 4\<rparr> \<and>
   calculateBollingerBands [] 20 = \<lparr>upper = 0, lower = 0, middle = 0\<rparr> \<and>
   20 \<le> length [100, 3, 3, 3, 3, 3, 3, 3, 3, 3, 3, 7, 7, 7, 7, 7, 7, 7, 7, 7, 7 :: real] \<and>
   middle (calculateBollingerBands [100, 3, 3, 3, 3, 3, 3, 3, 3, 3, 3, 7, 7, 7, 7, 7, 7, 7, 7, 7, 7] 20) = 5 \<and>
   upper (calculateBollingerBands [100, 3, 3, 3, 3, 3, 3, 3, 3, 3, 3, 7, 7, 7, 7, 7, 7, 7, 7, 7, 7] 20) = 9 \<and>
   lower (calculateBollingerBands [100, 3, 3, 3, 3, 3, 3, 3, 3, 3, 3, 7, 7, 7, 7, 7, 7, 7, 7, 7, 7] 20) = 1"
proof -
  let ?xs = "[100, 3, 3, 3, 3, 3, 3, 3, 3, 3, 3, 7, 7, 7, 7, 7, 7, 7, 7, 7, 7 :: real]"
  have short: "length [3, 4 :: real] < 20" "length ([] :: real list) < 20" by simp_all
  have long: "20 \<le> length ?xs" by simp
  from calculateBollingerBands_cases [of "[3, 4]"] short(1)
  have a: "calculateBollingerBands [3, 4] 20 = \<lparr>upper = 4, lower = 4, middle = 4\<rparr>"
    by (simp add: Let_def)
  from calculateBollingerBands_cases [of "[]"]
  have b: "calculateBollingerBands [] 20 = \<lparr>upper = 0, lower = 0, middle = 0\<rparr>"
    by (simp add: Let_def)
  have sl: "sliceLast 20 ?xs = tl ?xs" by (simp add: sliceLast_def)
  have four: "sqrt 4 = 2" using real_sqrt_abs [of 2] by simp
  from calculateBollingerBands_cases [of ?xs] long
  have c: "middle (calculateBollingerBands ?xs 20) = 5 \<and>
     upper (calculateBollingerBands ?xs 20) = 9 \<and>
     lower (calculateBollingerBands ?xs 20) = 1"
    unfolding Let_def sl by (simp add: four)
  from short(1) a b long c show ?thesis by (intro conjI) simp_all
qed

section \<open>CVD store: short input\<close>

text \<open>
  C10. A call of updateCVD with fewer than two price samples or fewer than two volume
  samples returns 0 and hands back the store as it was: no point is appended, nothing
  is evicted, and no entry is created for the symbol.
\<close>

theorem updateCVD_short_input_noop:
  "length priceData < 2 \<or> length volumeData < 2 \<Longrightarrow>
     updateCVD symbol priceData volumeData cvdHistory = (0, cvdHistory)"
  by (simp add: updateCVD_def)

theorem updateCVD_short_input_noop_witness:
  "(length [5::real] < 2 \<or> length [1::real, 2] < 2) \<and>
   updateCVD ''BTCUSDT'' [5] [1, 2] Map.empty = (0, Map.empty) \<and>
   snd (updateCVD ''BTCUSDT'' [5] [1, 2] Map.empty) ''BTCUSDT'' = None"
  using updateCVD_short_input_noop [of "[5]" "[1, 2]" "''BTCUSDT''" Map.empty]
  by simp

section \<open>CVD store: the series of a run\<close>

lemma cvdSpecAt_Suc_step:
  "cvdSpecAt p v (Suc k) = cvdStep (cvdSpecAt p v k) (p ! k) (p ! Suc k) (v ! Suc k)"
  by (simp add: cvdStep_def)

lemma backfillLoop_spec:
  "1 \<le> i \<Longrightarrow> r = cvdSpecAt p v (i - 1) \<Longrightarrow>
     backfillLoop p v i r acc = acc @ map (cvdSpecAt p v) [i..<min (length p) (length v)]"
proof (induction p v i r acc rule: backfillLoop.induct)
  case (1 p v i r acc)
  show ?case
  proof (cases "i < min (length p) (length v)")
    case False
    then show ?thesis
      by (auto simp add: backfillLoop.simps [of p v i])
  next
    case True
    define r' where "r' = cvdStep r (p ! (i - 1)) (p ! i) (v ! i)"
    from "1.prems" have r': "r' = cvdSpecAt p v i"
      using cvdSpecAt_Suc_step [of p v "i - 1"] by (simp add: r'_def)
    have "backfillLoop p v i r acc = backfillLoop p v (i + 1) r' (acc @ [r'])"
      using True by (simp add: backfillLoop.simps [of p v i] r'_def Let_def)
    also have "\<dots> = (acc @ [r']) @ map (cvdSpecAt p v) [i + 1..<min (length p) (length v)]"
      using True "1.prems" r' by (intro "1.IH" [OF True refl refl refl r'_def]) simp_all
    also have "\<dots> = acc @ map (cvdSpecAt p v) [i..<min (length p) (length v)]"
      using True r' by (simp add: upt_conv_Cons)
    finally show ?thesis .
  qed
qed

lemma cvdSpecAt_take: "j < k \<Longrightarrow> cvdSpecAt (take k p) (take k v) j = cvdSpecAt p v j"
  by (induction j) simp_all

lemma tickCall_backfill:
  assumes "getOrEmpty st symbol = []" "2 \<le> k" "k \<le> length p" "k \<le> length v"
  shows "tickCall symbol p v k st =
           st(symbol \<mapsto> sliceLast maxHistoryLength (map (cvdSpecAt p v) [1..<k]))"
proof -
  have "backfillLoop (take k p) (take k v) 1 0 [] =
          map (cvdSpecAt (take k p) (take k v)) [1..<k]"
    using assms by (simp add: backfillLoop_spec)
  also have "\<dots> = map (cvdSpecAt p v) [1..<k]"
    by (simp add: cvdSpecAt_take)
  finally show ?thesis
    using assms by (simp add: tickCall_def updateCVD_def trimHistory_sliceLast Let_def)
qed

lemma tickCall_append:
  assumes "getOrEmpty st symbol = xs" "xs \<noteq> []" "2 \<le> k" "k \<le> length p" "k \<le> length v"
  shows "tickCall symbol p v k st =
           st(symbol \<mapsto> sliceLast maxHistoryLength
                (xs @ [cvdStep (last xs) (p ! (k - 2)) (p ! (k - 1)) (v ! (k - 1))]))"
  using assms
  by (simp add: tickCall_def updateCVD_def trimHistory_sliceLast Let_def lastOrZero_last)

lemma feedTicks_snoc:
  "feedTicks symbol p v (ks @ [k]) st = tickCall symbol p v k (feedTicks symbol p v ks st)"
  by (simp add: feedTicks_def)

lemma feedTicks_series:
  assumes len: "length p = n" "length v = n"
    and empty: "getOrEmpty st symbol = []"
    and k0: "1 \<le> k0" and le: "k0 \<le> k" and kn: "k \<le> n"
  shows "feedTicks symbol p v [k0..<Suc k] st =
           (if k < 2 then st
            else st(symbol \<mapsto> sliceLast maxHistoryLength (map (cvdSpecAt p v) [1..<k])))"
  using le kn
proof (induction k rule: dec_induct)
  case base
  show ?case
  proof (cases "k0 < 2")
    case True
    then have "length (take k0 p) < 2" by simp
    with True show ?thesis
      by (simp add: feedTicks_def tickCall_def updateCVD_def)
  next
    case False
    then show ?thesis
      using base len empty by (simp add: feedTicks_def tickCall_backfill)
  qed
next
  case (step k)
  let ?f = "cvdSpecAt p v"
  let ?st = "feedTicks symbol p v [k0..<Suc k] st"
  have k1: "1 \<le> k" using k0 step.hyps by simp
  have run: "feedTicks symbol p v [k0..<Suc (Suc k)] st = tickCall symbol p v (Suc k) ?st"
    using step.hyps feedTicks_snoc [of symbol p v "[k0..<Suc k]" "Suc k" st] by simp
  show ?case
  proof (cases "k < 2")
    case True
    have "?st = (if k < 2 then st
            else st(symbol \<mapsto> sliceLast maxHistoryLength (map ?f [1..<k])))"
      by (rule step.IH) (use step.prems in simp)
    with True have "?st = st" by (simp only: if_True)
    then show ?thesis
      using run True k1 step.prems len empty by (simp add: tickCall_backfill)
  next
    case False
    let ?xs = "sliceLast maxHistoryLength (map ?f [1..<k])"
    from False have ne: "map ?f [1..<k] \<noteq> []" by simp
    have pos: "0 < maxHistoryLength" by (simp add: maxHistoryLength_def)
    have "?st = (if k < 2 then st else st(symbol \<mapsto> ?xs))"
      by (rule step.IH) (use step.prems in simp)
    with False have st: "?st = st(symbol \<mapsto> ?xs)" by (simp only: if_False)
    then have get: "getOrEmpty ?st symbol = ?xs" by (simp add: getOrEmpty_def)
    have xs_ne: "?xs \<noteq> []" using pos ne by (rule sliceLast_nonempty)
    have "last ?xs = last (map ?f [1..<k])" using pos ne by (rule last_sliceLast)
    also have "\<dots> = ?f (k - 1)"
      using False by (simp add: last_map last_upt)
    finally have last: "last ?xs = ?f (k - 1)" .
    have new: "cvdStep (last ?xs) (p ! (Suc k - 2)) (p ! (Suc k - 1)) (v ! (Suc k - 1)) = ?f k"
      using k1 cvdSpecAt_Suc_step [of p v "k - 1"] last by simp
    have two: "2 \<le> Suc k" using k1 by simp
    have lp: "Suc k \<le> length p" and lv: "Suc k \<le> length v"
      using step.prems len by simp_all
    have "tickCall symbol p v (Suc k) ?st =
            ?st(symbol \<mapsto> sliceLast maxHistoryLength
              (?xs @ [cvdStep (last ?xs) (p ! (Suc k - 2)) (p ! (Suc k - 1)) (v ! (Suc k - 1))]))"
      by (rule tickCall_append [OF get xs_ne two lp lv])
    also have "\<dots> = ?st(symbol \<mapsto> sliceLast maxHistoryLength (?xs @ [?f k]))"
      by (simp only: new)
    also have "\<dots> = st(symbol \<mapsto> sliceLast maxHistoryLength (map ?f [1..<k] @ [?f k]))"
      by (simp only: st sliceLast_snoc [OF pos] fun_upd_upd)
    also have "map ?f [1..<k] @ [?f k] = map ?f [1..<Suc k]"
      using k1 by simp
    finally show ?thesis using run two by (simp del: upt_Suc)
  qed
qed

text \<open>
  C2. For paired price and volume samples and a symbol with no series yet, feeding the
  store one tick at a time (the calls at history lengths 1, 2, ... up to the whole
  sequence: the first effective call back-fills, every later call appends one point)
  leaves the same store as one back-fill call over the whole sequence, retention cap
  included.
\<close>

theorem incremental_equals_backfill:
  assumes "length prices = length volumes" and "getOrEmpty cvdHistory symbol = []"
  shows "feedTicks symbol prices volumes [1..<Suc (length prices)] cvdHistory =
           snd (updateCVD symbol prices volumes cvdHistory)"
proof (cases "length prices = 0")
  case True
  then show ?thesis by (simp add: feedTicks_def updateCVD_def)
next
  case False
  define n where "n = length prices"
  have n: "1 \<le> n" "length prices = n" "length volumes = n"
    using False assms by (simp_all add: n_def Suc_le_eq)
  have "feedTicks symbol prices volumes [1..<Suc n] cvdHistory =
          feedTicks symbol prices volumes [n..<Suc n] cvdHistory"
    using n assms(2)
    by (simp only: feedTicks_series [of prices n volumes cvdHistory symbol 1 n]
        feedTicks_series [of prices n volumes cvdHistory symbol n n] le_refl)
  also have "\<dots> = tickCall symbol prices volumes n cvdHistory"
    by (simp add: feedTicks_def)
  also have "\<dots> = snd (updateCVD symbol prices volumes cvdHistory)"
    using n by (simp add: tickCall_def)
  finally show ?thesis using n by simp
qed

theorem incremental_equals_backfill_witness:
  "length [10, 10, 12, 11, 13 :: real] = length [100, 100, 100, 100, 100 :: real] \<and>
   getOrEmpty Map.empty ''BTCUSDT'' = [] \<and>
   feedTicks ''BTCUSDT'' [10, 10, 12, 11, 13] [100, 100, 100, 100, 100]
       [1..<Suc (length [10, 10, 12, 11, 13 :: real])] Map.empty =
     snd (updateCVD ''BTCUSDT'' [10, 10, 12, 11, 13] [100, 100, 100, 100, 100] Map.empty) \<and>
   getOrEmpty (snd (updateCVD ''BTCUSDT'' [10, 10, 12, 11, 13] [100, 100, 100, 100, 100] Map.empty))
       ''BTCUSDT'' = [0, 100, 0, 100]"
proof -
  have h1: "length [10, 10, 12, 11, 13 :: real] = length [100, 100, 100, 100, 100 :: real]"
    by simp
  have h2: "getOrEmpty Map.empty ''BTCUSDT'' = []"
    by (simp add: getOrEmpty_def)
  have v: "getOrEmpty (snd (updateCVD ''BTCUSDT'' [10, 10, 12, 11, 13]
              [100, 100, 100, 100, 100] Map.empty)) ''BTCUSDT'' = [0, 100, 0, 100]"
    by (simp add: updateCVD_def getOrEmpty_def backfillLoop.simps cvdStep_def trimHistory_def Let_def
        maxHistoryLength_def)
  from h1 h2 incremental_equals_backfill [OF h1 h2] v show ?thesis
    by (intro conjI)
qed

lemma sliceLast_series_nth:
  assumes "j < min (n - 1) m" and "0 < m"
  shows "sliceLast m (map f [1..<n]) ! j = f (Suc (j + ((n - 1) - min (n - 1) m)))"
proof -
  let ?e = "(n - 1) - m"
  have e: "(n - 1) - min (n - 1) m = ?e" by simp
  have b: "?e + j < n - 1" using assms by arith
  have "sliceLast m (map f [1..<n]) ! j = map f [1..<n] ! (?e + j)"
    using assms(2) by (simp add: sliceLast_def)
  also have "\<dots> = f ([1..<n] ! (?e + j))"
    using b by (intro nth_map) simp
  also have "[1..<n] ! (?e + j) = Suc (j + ?e)"
    using b by (simp add: nth_upt)
  finally show ?thesis by (simp only: e)
qed

text \<open>
  C6. For paired samples of \<open>n\<close> ticks, the series stored after a run that starts with
  a call at any history length and then proceeds tick by tick is the last 100 values of
  the specified cumulative series (anchor 0 before the first tick). Its point at index
  \<open>j\<close> belongs to tick \<open>j + e + 1\<close>, where \<open>e\<close> is the number of evicted points,
  and equals the point before it plus the volume of that tick when the price rose, minus
  it when the price fell, unchanged when the price stayed. The first stored point is
  obtained in the same way from the anchor 0 while nothing is evicted, and from the
  cumulative value of the last evicted tick afterwards.
\<close>

theorem cvd_series_invariant:
  assumes "length prices = n" and "length volumes = n"
    and "getOrEmpty cvdHistory symbol = []" and "1 \<le> k0" and "k0 \<le> n"
  shows "let s = getOrEmpty (feedTicks symbol prices volumes [k0..<Suc n] cvdHistory) symbol;
             e = (n - 1) - length s
         in s = sliceLast maxHistoryLength (cvdSpecSeries prices volumes) \<and>
            length s = min (n - 1) maxHistoryLength \<and>
            (\<forall>j<length s. 0 < j \<longrightarrow>
               s ! j = cvdStep (s ! (j - 1)) (prices ! (j + e)) (prices ! (j + e + 1))
                         (volumes ! (j + e + 1))) \<and>
            (s \<noteq> [] \<and> e = 0 \<longrightarrow>
               s ! 0 = cvdStep 0 (prices ! 0) (prices ! 1) (volumes ! 1)) \<and>
            (s \<noteq> [] \<longrightarrow>
               s ! 0 = cvdStep (cvdSpecAt prices volumes e) (prices ! e) (prices ! (e + 1))
                         (volumes ! (e + 1)))"
proof -
  let ?f = "cvdSpecAt prices volumes"
  let ?s = "getOrEmpty (feedTicks symbol prices volumes [k0..<Suc n] cvdHistory) symbol"
  let ?e = "(n - 1) - length ?s"
  have run: "feedTicks symbol prices volumes [k0..<Suc n] cvdHistory =
      (if n < 2 then cvdHistory
       else cvdHistory(symbol \<mapsto> sliceLast maxHistoryLength (map ?f [1..<n])))"
    by (rule feedTicks_series [OF assms(1,2,3,4,5) le_refl])
  have s: "?s = sliceLast maxHistoryLength (map ?f [1..<n])"
  proof (cases "n < 2")
    case True
    then have "[1..<n] = []" by simp
    with True run assms(3) show ?thesis by (simp add: sliceLast_def)
  next
    case False
    with run show ?thesis by (simp add: getOrEmpty_def)
  qed
  have spec: "?s = sliceLast maxHistoryLength (cvdSpecSeries prices volumes)"
    using assms(1,2) by (simp only: s cvdSpecSeries_def min.idem)
  have pos: "0 < maxHistoryLength" by (simp add: maxHistoryLength_def)
  have len: "length ?s = min (n - 1) maxHistoryLength"
    by (simp only: s length_sliceLast [OF pos] length_map length_upt)
  have nth: "?s ! j = ?f (Suc (j + ?e))" if "j < length ?s" for j
    using that sliceLast_series_nth [of j n maxHistoryLength ?f] len pos by (simp only: s)
  have step: "?s ! j = cvdStep (?s ! (j - 1)) (prices ! (j + ?e)) (prices ! (j + ?e + 1))
                (volumes ! (j + ?e + 1))" if "j < length ?s" "0 < j" for j
  proof -
    from that have "j - 1 < length ?s" by simp
    then have "?s ! (j - 1) = ?f (Suc (j - 1 + ?e))" by (rule nth)
    with that(2) have prev: "?s ! (j - 1) = ?f (j + ?e)" by simp
    show ?thesis
      using nth [OF that(1)] cvdSpecAt_Suc_step [of prices volumes "j + ?e"] prev by simp
  qed
  have first: "?s ! 0 = cvdStep 0 (prices ! 0) (prices ! 1) (volumes ! 1)"
    if "?s \<noteq> []" "?e = 0"
  proof -
    from that(1) have "0 < length ?s" by simp
    then have "?s ! 0 = ?f (Suc (0 + ?e))" by (rule nth)
    with that(2) have "?s ! 0 = ?f (Suc 0)" by simp
    then show ?thesis by (simp add: cvdStep_def)
  qed
  have head: "?s ! 0 = cvdStep (?f ?e) (prices ! ?e) (prices ! (?e + 1)) (volumes ! (?e + 1))"
    if "?s \<noteq> []"
  proof -
    from that have "0 < length ?s" by simp
    then have "?s ! 0 = ?f (Suc (0 + ?e))" by (rule nth)
    then show ?thesis
      using cvdSpecAt_Suc_step [of prices volumes ?e] by simp
  qed
  show ?thesis
    unfolding Let_def using spec len step first head by blast
qed

theorem cvd_series_invariant_witness:
  "length [10, 10, 12, 11, 13 :: real] = 5 \<and> length [100, 100, 100, 100, 100 :: real] = 5 \<and>
   getOrEmpty Map.empty ''BTCUSDT'' = [] \<and> (1::nat) \<le> 1 \<and> (1::nat) \<le> 5 \<and>
   getOrEmpty (feedTicks ''BTCUSDT'' [10, 10, 12, 11, 13] [100, 100, 100, 100, 100]
      [1..<Suc 5] Map.empty) ''BTCUSDT'' = [0, 100, 0, 100] \<and>
   sliceLast maxHistoryLength (cvdSpecSeries [10, 10, 12, 11, 13] [100, 100, 100, 100, 100]) =
     [0, 100, 0, 100] \<and>
   [0, 100, 0, 100 :: real] ! 1 = cvdStep ([0, 100, 0, 100] ! 0) 10 12 100 \<and>
   [0, 100, 0, 100 :: real] ! 2 = cvdStep ([0, 100, 0, 100] ! 1) 12 11 100 \<and>
   [0, 100, 0, 100 :: real] ! 3 = cvdStep ([0, 100, 0, 100] ! 2) 11 13 100 \<and>
   [0, 100, 0, 100 :: real] ! 0 = cvdStep 0 10 10 100 \<and>
   length (map real [1..<104]) = 103 \<and> length (replicate 103 (1::real)) = 103 \<and>
   (1::nat) \<le> 103 \<and>
   length (getOrEmpty (feedTicks ''BTCUSDT'' (map real [1..<104]) (replicate 103 1)
      [1..<Suc 103] Map.empty) ''BTCUSDT'') = 100 \<and>
   getOrEmpty (feedTicks ''BTCUSDT'' (map real [1..<104]) (replicate 103 1)
      [1..<Suc 103] Map.empty) ''BTCUSDT'' ! 0 = 3"
proof -
  let ?s = "[0, 100, 0, 100 :: real]"
  have h1: "length [10, 10, 12, 11, 13 :: real] = 5"
    and h2: "length [100, 100, 100, 100, 100 :: real] = 5" by simp_all
  have h3: "getOrEmpty Map.empty ''BTCUSDT'' = []"
    by (simp add: getOrEmpty_def)
  have h4: "(1::nat) \<le> 1" and h5: "(1::nat) \<le> 5" by simp_all
  have v: "getOrEmpty (feedTicks ''BTCUSDT'' [10, 10, 12, 11, 13] [100, 100, 100, 100, 100]
                [1..<Suc 5] Map.empty) ''BTCUSDT'' = ?s"
    by (simp add: feedTicks_def tickCall_def updateCVD_def getOrEmpty_def backfillLoop.simps
      cvdStep_def trimHistory_def maxHistoryLength_def lastOrZero_def upt_rec)
  note inst = cvd_series_invariant [OF h1 h2 h3 h4 h5, unfolded Let_def v]
  from inst have spec:
    "sliceLast maxHistoryLength (cvdSpecSeries [10, 10, 12, 11, 13] [100, 100, 100, 100, 100]) = ?s"
    by simp
  from inst have steps: "\<forall>j<length ?s. 0 < j \<longrightarrow>
      ?s ! j = cvdStep (?s ! (j - 1)) ([10, 10, 12, 11, 13] ! (j + (5 - 1 - length ?s)))
        ([10, 10, 12, 11, 13] ! (j + (5 - 1 - length ?s) + 1))
        ([100, 100, 100, 100, 100] ! (j + (5 - 1 - length ?s) + 1))"
    by blast
  from inst have first: "?s \<noteq> [] \<and> 5 - 1 - length ?s = 0 \<longrightarrow>
      ?s ! 0 = cvdStep 0 ([10, 10, 12, 11, 13] ! 0) ([10, 10, 12, 11, 13] ! 1)
        ([100, 100, 100, 100, 100] ! 1)"
    by blast
  have s1: "?s ! 1 = cvdStep (?s ! 0) 10 12 100"
    using steps [rule_format, of 1] by simp
  have s2: "?s ! 2 = cvdStep (?s ! 1) 12 11 100"
    using steps [rule_format, of 2] by simp
  have s3: "?s ! 3 = cvdStep (?s ! 2) 11 13 100"
    using steps [rule_format, of 3] by simp
  have s0: "?s ! 0 = cvdStep 0 10 10 100"
    using first by simp
  let ?p = "map real [1..<104]"
  let ?v = "replicate 103 (1::real)"
  let ?long = "getOrEmpty (feedTicks ''BTCUSDT'' ?p ?v [1..<Suc 103] Map.empty) ''BTCUSDT''"
  have g1: "length ?p = 103" and g2: "length ?v = 103" and g5: "(1::nat) \<le> 103"
    by simp_all
  note big = cvd_series_invariant [OF g1 g2 h3 h4 g5, unfolded Let_def]
  from big have "length ?long = min (103 - 1) maxHistoryLength" by blast
  then have blen: "length ?long = 100" by (simp add: maxHistoryLength_def)
  from big have "?long \<noteq> [] \<longrightarrow>
      ?long ! 0 = cvdStep (cvdSpecAt ?p ?v (103 - 1 - length ?long))
        (?p ! (103 - 1 - length ?long)) (?p ! (103 - 1 - length ?long + 1))
        (?v ! (103 - 1 - length ?long + 1))"
    by blast
  moreover from blen have "?long \<noteq> []" by auto
  ultimately have "?long ! 0 = cvdStep (cvdSpecAt ?p ?v (103 - 1 - 100))
        (?p ! (103 - 1 - 100)) (?p ! (103 - 1 - 100 + 1)) (?v ! (103 - 1 - 100 + 1))"
    unfolding blen by blast
  also have "\<dots> = 3"
    by (simp add: cvdStep_def numeral_2_eq_2)
  finally have bhead: "?long ! 0 = 3" .
  from h1 h2 h3 h4 h5 v spec s1 s2 s3 s0 g1 g2 g5 blen bhead show ?thesis by (intro conjI)
qed

section \<open>CVD store: trend of the stored series\<close>

text \<open>
  C8. With fewer than 10 stored points (or no series at all) calculateCVDTrend returns
  neutral. With at least 10 points, let the change be the last value minus the first of
  the last 10 values, divided by the absolute first value, or by 1 when the first value
  is 0; the result is bullish exactly when the change exceeds 10 percent, bearish exactly
  when it is below minus 10 percent, and neutral exactly in between.
\<close>

theorem calculateCVDTrend_cases:
  "(length (getOrEmpty cvdHistory symbol) < 10 \<longrightarrow>
      calculateCVDTrend cvdHistory symbol 10 = neutral) \<and>
   (10 \<le> length (getOrEmpty cvdHistory symbol) \<longrightarrow>
      (let xs = getOrEmpty cvdHistory symbol;
           firstValue = xs ! (length xs - 10);
           lastValue = last xs;
           change = (lastValue - firstValue) / (if firstValue = 0 then 1 else \<bar>firstValue\<bar>)
       in (calculateCVDTrend cvdHistory symbol 10 = bullish \<longleftrightarrow> change > 10 / 100) \<and>
          (calculateCVDTrend cvdHistory symbol 10 = bearish \<longleftrightarrow> change < - (10 / 100)) \<and>
          (calculateCVDTrend cvdHistory symbol 10 = neutral \<longleftrightarrow>
             - (10 / 100) \<le> change \<and> change \<le> 10 / 100)))"
proof (intro conjI impI)
  assume "length (getOrEmpty cvdHistory symbol) < 10"
  then show "calculateCVDTrend cvdHistory symbol 10 = neutral"
    by (simp add: calculateCVDTrend_def)
next
  let ?xs = "getOrEmpty cvdHistory symbol"
  assume len: "10 \<le> length ?xs"
  then have ne: "?xs \<noteq> []" by auto
  have first: "sliceLast 10 ?xs ! 0 = ?xs ! (length ?xs - 10)"
    using len by (simp add: sliceLast_def)
  have "sliceLast 10 ?xs ! (length (sliceLast 10 ?xs) - 1) = last (sliceLast 10 ?xs)"
    using len by (subst last_conv_nth) (auto simp add: sliceLast_def)
  also have "\<dots> = last ?xs"
    using ne by (simp add: last_sliceLast)
  finally have lst: "sliceLast 10 ?xs ! (length (sliceLast 10 ?xs) - 1) = last ?xs" .
  show "let xs = getOrEmpty cvdHistory symbol;
           firstValue = xs ! (length xs - 10);
           lastValue = last xs;
           change = (lastValue - firstValue) / (if firstValue = 0 then 1 else \<bar>firstValue\<bar>)
       in (calculateCVDTrend cvdHistory symbol 10 = bullish \<longleftrightarrow> change > 10 / 100) \<and>
          (calculateCVDTrend cvdHistory symbol 10 = bearish \<longleftrightarrow> change < - (10 / 100)) \<and>
          (calculateCVDTrend cvdHistory symbol 10 = neutral \<longleftrightarrow>
             - (10 / 100) \<le> change \<and> change \<le> 10 / 100)"
  proof -
    define c where "c = (last ?xs - ?xs ! (length ?xs - 10)) /
        (if ?xs ! (length ?xs - 10) = 0 then 1 else \<bar>?xs ! (length ?xs - 10)\<bar>)"
    have "calculateCVDTrend cvdHistory symbol 10 =
            (if c > 0.1 then bullish else if c < - 0.1 then bearish else neutral)"
      using len unfolding calculateCVDTrend_def Let_def first lst c_def
      by (simp add: not_less)
    then have "(calculateCVDTrend cvdHistory symbol 10 = bullish \<longleftrightarrow> c > 10 / 100) \<and>
          (calculateCVDTrend cvdHistory symbol 10 = bearish \<longleftrightarrow> c < - (10 / 100)) \<and>
          (calculateCVDTrend cvdHistory symbol 10 = neutral \<longleftrightarrow>
             - (10 / 100) \<le> c \<and> c \<le> 10 / 100)"
      by (simp split: if_splits)
    then show ?thesis
      unfolding Let_def c_def .
  qed
qed

theorem calculateCVDTrend_cases_witness:
  "length (getOrEmpty Map.empty ''BTCUSDT'') < 10 \<and>
   calculateCVDTrend Map.empty ''BTCUSDT'' 10 = neutral \<and>
   10 \<le> length (getOrEmpty [''BTCUSDT'' \<mapsto> [5, 10, 0, 0, 0, 0, 0, 0, 0, 0, 12]] ''BTCUSDT'') \<and>
   calculateCVDTrend [''BTCUSDT'' \<mapsto> [5, 10, 0, 0, 0, 0, 0, 0, 0, 0, 12]] ''BTCUSDT'' 10 = bullish \<and>
   calculateCVDTrend [''BTCUSDT'' \<mapsto> [5, 10, 0, 0, 0, 0, 0, 0, 0, 0, 8]] ''BTCUSDT'' 10 = bearish \<and>
   calculateCVDTrend [''BTCUSDT'' \<mapsto> [5, 0, 0, 0, 0, 0, 0, 0, 0, 0, 1 / 20]] ''BTCUSDT'' 10 = neutral"
proof -
  have g: "getOrEmpty [''BTCUSDT'' \<mapsto> xs] ''BTCUSDT'' = xs" for xs
    by (simp add: getOrEmpty_def)
  have e: "getOrEmpty Map.empty ''BTCUSDT'' = []" by (simp add: getOrEmpty_def)
  have short: "length (getOrEmpty Map.empty ''BTCUSDT'') < 10" by (simp add: e)
  have long: "10 \<le> length (getOrEmpty [''BTCUSDT'' \<mapsto> [5, 10, 0, 0, 0, 0, 0, 0, 0, 0, 12]] ''BTCUSDT'')"
    by (simp add: g)
  from calculateCVDTrend_cases [of Map.empty "''BTCUSDT''"] short
  have a: "calculateCVDTrend Map.empty ''BTCUSDT'' 10 = neutral" by blast
  from calculateCVDTrend_cases [of "[''BTCUSDT'' \<mapsto> [5, 10, 0, 0, 0, 0, 0, 0, 0, 0, 12]]" "''BTCUSDT''"]
  have b: "calculateCVDTrend [''BTCUSDT'' \<mapsto> [5, 10, 0, 0, 0, 0, 0, 0, 0, 0, 12]] ''BTCUSDT'' 10 = bullish"
    by (simp add: g Let_def)
  from calculateCVDTrend_cases [of "[''BTCUSDT'' \<mapsto> [5, 10, 0, 0, 0, 0, 0, 0, 0, 0, 8]]" "''BTCUSDT''"]
  have c: "calculateCVDTrend [''BTCUSDT'' \<mapsto> [5, 10, 0, 0, 0, 0, 0, 0, 0, 0, 8]] ''BTCUSDT'' 10 = bearish"
    by (simp add: g Let_def)
  from calculateCVDTrend_cases [of "[''BTCUSDT'' \<mapsto> [5, 0, 0, 0, 0, 0, 0, 0, 0, 0, 1 / 20]]" "''BTCUSDT''"]
  have d: "calculateCVDTrend [''BTCUSDT'' \<mapsto> [5, 0, 0, 0, 0, 0, 0, 0, 0, 0, 1 / 20]] ''BTCUSDT'' 10 = neutral"
    by (simp add: g Let_def)
  from short a long b c d show ?thesis by (intro conjI)
qed

section \<open>CVD store: flat prices\<close>

lemma backfillLoop_flat:
  "\<forall>x\<in>set ps. x = c \<Longrightarrow> 1 \<le> i \<Longrightarrow> r = 0 \<Longrightarrow> \<forall>x\<in>set acc. x = 0 \<Longrightarrow>
     \<forall>x\<in>set (backfillLoop ps vs i r acc). x = 0"
proof (induction ps vs i r acc rule: backfillLoop.induct)
  case (1 ps vs i r acc)
  show ?case
  proof (cases "i < min (length ps) (length vs)")
    case False
    then show ?thesis
      using "1.prems" by (auto simp add: backfillLoop.simps [of ps vs i])
  next
    case True
    then have "i < length ps" "i - 1 < length ps" by arith+
    then have "ps ! i \<in> set ps" "ps ! (i - 1) \<in> set ps" by (simp_all only: nth_mem)
    with "1.prems"(1) have same: "ps ! i = ps ! (i - 1)" by metis
    define r' where "r' = cvdStep r (ps ! (i - 1)) (ps ! i) (vs ! i)"
    have r': "r' = 0" using same "1.prems"(3) by (simp add: r'_def cvdStep_def)
    have "backfillLoop ps vs i r acc = backfillLoop ps vs (i + 1) r' (acc @ [r'])"
      using True by (simp add: backfillLoop.simps [of ps vs i] r'_def Let_def)
    moreover have "\<forall>x\<in>set (backfillLoop ps vs (i + 1) r' (acc @ [r'])). x = 0"
      using "1.prems" r' by (intro "1.IH" [OF True refl refl refl r'_def]) simp_all
    ultimately show ?thesis by simp
  qed
qed

lemma updateCVD_flat:
  assumes "\<forall>x\<in>set ps. x = c" and "\<forall>x\<in>set (getOrEmpty st symbol). x = 0"
  shows "\<forall>x\<in>set (getOrEmpty (snd (updateCVD symbol ps vs st)) symbol). x = 0"
proof (cases "length ps < 2 \<or> length vs < 2")
  case True
  with assms(2) show ?thesis by (simp add: updateCVD_def)
next
  case False
  let ?xs = "getOrEmpty st symbol"
  show ?thesis
  proof (cases "?xs = []")
    case True
    have "\<forall>x\<in>set (backfillLoop ps vs 1 0 []). x = 0"
      using assms(1) by (intro backfillLoop_flat) simp_all
    then have "\<forall>x\<in>set (trimHistory (backfillLoop ps vs 1 0 [])). x = 0"
      by (auto simp add: trimHistory_def dest: in_set_dropD)
    with False True show ?thesis
      by (simp add: updateCVD_def Let_def getOrEmpty_def)
  next
    case ne: False
    from False have "length ps - 2 < length ps" "length ps - 1 < length ps" by arith+
    then have "ps ! (length ps - 2) \<in> set ps" "ps ! (length ps - 1) \<in> set ps"
      by (simp_all only: nth_mem)
    with assms(1) have same: "ps ! (length ps - 1) = ps ! (length ps - 2)" by metis
    from ne assms(2) have "lastOrZero ?xs = 0"
      by (simp add: lastOrZero_def orZero_def)
    with same have "cvdStep (lastOrZero ?xs) (ps ! (length ps - 2)) (ps ! (length ps - 1))
        (vs ! (length vs - 1)) = 0"
      by (simp add: cvdStep_def)
    with assms(2) have "\<forall>x\<in>set (?xs @ [cvdStep (lastOrZero ?xs) (ps ! (length ps - 2))
        (ps ! (length ps - 1)) (vs ! (length vs - 1))]). x = 0"
      by simp
    then have "\<forall>x\<in>set (trimHistory (?xs @ [cvdStep (lastOrZero ?xs) (ps ! (length ps - 2))
        (ps ! (length ps - 1)) (vs ! (length vs - 1))])). x = 0"
      unfolding trimHistory_def by (auto dest: in_set_dropD)
    with False ne show ?thesis
      by (simp add: updateCVD_def Let_def getOrEmpty_def)
  qed
qed

lemma feedTicks_flat:
  "\<forall>x\<in>set ps. x = c \<Longrightarrow> \<forall>x\<in>set (getOrEmpty st symbol). x = 0 \<Longrightarrow>
     \<forall>x\<in>set (getOrEmpty (feedTicks symbol ps vs ks st) symbol). x = 0"
proof (induction ks arbitrary: st)
  case Nil
  then show ?case by (simp add: feedTicks_def)
next
  case (Cons k ks)
  have "\<forall>x\<in>set (take k ps). x = c"
    using Cons.prems(1) by (auto dest: in_set_takeD)
  then have "\<forall>x\<in>set (getOrEmpty (tickCall symbol ps vs k st) symbol). x = 0"
    unfolding tickCall_def using Cons.prems(2) by (rule updateCVD_flat)
  with Cons.prems(1) have "\<forall>x\<in>set (getOrEmpty
      (feedTicks symbol ps vs ks (tickCall symbol ps vs k st)) symbol). x = 0"
    by (rule Cons.IH)
  then show ?case by (simp add: feedTicks_def)
qed

lemma slopeLoop_flat:
  "\<forall>x\<in>set xs. x = 0 \<Longrightarrow>
     \<exists>sx sx2. slopeLoop xs i (sumX, sumY, sumXY, sumX2) = (sx, sumY, sumXY, sx2)"
proof (induction xs i "(sumX, sumY, sumXY, sumX2)" arbitrary: sumX sumY sumXY sumX2
    rule: slopeLoop.induct)
  case (1 xs i sumX sumY sumXY sumX2)
  show ?case
  proof (cases "i < length xs")
    case False
    then show ?thesis by (simp add: slopeLoop.simps [of xs i])
  next
    case True
    with "1.prems" have z: "xs ! i = 0" by simp
    have "slopeLoop xs i (sumX, sumY, sumXY, sumX2) =
            slopeLoop xs (i + 1) (sumX + real i, sumY, sumXY, sumX2 + real i * real i)"
      using True z by (simp add: slopeLoop.simps [of xs i])
    moreover have "\<exists>sx sx2. slopeLoop xs (i + 1)
        (sumX + real i, sumY, sumXY, sumX2 + real i * real i) = (sx, sumY, sumXY, sx2)"
      using z "1.hyps" [OF True "1.prems"] by simp
    ultimately show ?thesis by simp
  qed
qed

lemma calculateCVDSlope_flat:
  assumes "\<forall>x\<in>set (getOrEmpty st symbol). x = 0"
  shows "calculateCVDSlope st symbol lookback = 0"
proof -
  let ?recent = "sliceLast (lookback + 1) (getOrEmpty st symbol)"
  have "\<forall>x\<in>set ?recent. x = 0"
    using assms unfolding sliceLast_def by (auto dest: in_set_dropD)
  then obtain sx sx2 where "slopeLoop ?recent 0 (0, 0, 0, 0) = (sx, 0, 0, sx2)"
    using slopeLoop_flat [of ?recent 0 0 0 0 0] by blast
  then show ?thesis
    by (simp add: calculateCVDSlope_def Let_def)
qed

lemma calculateCVDTrend_flat:
  assumes "\<forall>x\<in>set (getOrEmpty st symbol). x = 0" and "0 < lookback"
  shows "calculateCVDTrend st symbol lookback = neutral"
proof (cases "length (getOrEmpty st symbol) < lookback")
  case True
  then show ?thesis by (simp add: calculateCVDTrend_def)
next
  case False
  let ?recent = "sliceLast lookback (getOrEmpty st symbol)"
  have flat: "\<forall>x\<in>set ?recent. x = 0"
    using assms(1) unfolding sliceLast_def by (auto dest: in_set_dropD)
  from False assms(2) have "0 < length ?recent" by (simp add: length_sliceLast)
  then have "0 < length ?recent" "length ?recent - 1 < length ?recent" by simp_all
  then have "?recent ! 0 \<in> set ?recent" "?recent ! (length ?recent - 1) \<in> set ?recent"
    by (simp_all only: nth_mem)
  with flat have "?recent ! 0 = 0" "?recent ! (length ?recent - 1) = 0" by (metis)+
  with False show ?thesis
    by (simp add: calculateCVDTrend_def Let_def)
qed

text \<open>
  C9. When all prices of a tick sequence are equal, whatever the volumes and whatever
  the history lengths at which the store is called, the series of a symbol that started
  without one is constant (every stored value is 0), the regression slope over the last
  6 points is exactly 0, and the trend over the last 10 points is neutral.
\<close>

theorem flat_prices_flat_cvd:
  assumes "\<forall>x\<in>set prices. x = c" and "getOrEmpty cvdHistory symbol = []"
  shows "let cvdHistory' = feedTicks symbol prices volumes ks cvdHistory
         in (\<forall>x\<in>set (getOrEmpty cvdHistory' symbol). x = 0) \<and>
            calculateCVDSlope cvdHistory' symbol 5 = 0 \<and>
            calculateCVDTrend cvdHistory' symbol 10 = neutral"
proof -
  have "\<forall>x\<in>set (getOrEmpty (feedTicks symbol prices volumes ks cvdHistory) symbol). x = 0"
    using assms by (intro feedTicks_flat) simp_all
  then show ?thesis
    unfolding Let_def by (simp add: calculateCVDSlope_flat calculateCVDTrend_flat)
qed

theorem flat_prices_flat_cvd_witness:
  "set [7, 7, 7, 7, 7, 7, 7, 7, 7, 7, 7, 7 :: real] = {7} \<and>
   getOrEmpty Map.empty ''BTCUSDT'' = [] \<and>
   getOrEmpty (feedTicks ''BTCUSDT'' [7, 7, 7, 7, 7, 7, 7, 7, 7, 7, 7, 7] [10, 20, 30, 40, 50, 60, 70, 80, 90, 100, 110, 120] [1..<13] Map.empty) ''BTCUSDT'' =
     [0, 0, 0, 0, 0, 0, 0, 0, 0, 0, 0] \<and>
   calculateCVDSlope (feedTicks ''BTCUSDT'' [7, 7, 7, 7, 7, 7, 7, 7, 7, 7, 7, 7] [10, 20, 30, 40, 50, 60, 70, 80, 90, 100, 110, 120] [1..<13] Map.empty) ''BTCUSDT'' 5 = 0 \<and>
   calculateCVDTrend (feedTicks ''BTCUSDT'' [7, 7, 7, 7, 7, 7, 7, 7, 7, 7, 7, 7] [10, 20, 30, 40, 50, 60, 70, 80, 90, 100, 110, 120] [1..<13] Map.empty) ''BTCUSDT'' 10 = neutral"
proof -
  have h1: "\<forall>x\<in>set [7, 7, 7, 7, 7, 7, 7, 7, 7, 7, 7, 7 :: real]. x = 7" by simp
  have h2: "getOrEmpty Map.empty ''BTCUSDT'' = []" by (simp add: getOrEmpty_def)
  have s: "set [7, 7, 7, 7, 7, 7, 7, 7, 7, 7, 7, 7 :: real] = {7}" by simp
  have v: "getOrEmpty (feedTicks ''BTCUSDT'' [7, 7, 7, 7, 7, 7, 7, 7, 7, 7, 7, 7] [10, 20, 30, 40, 50, 60, 70, 80, 90, 100, 110, 120] [1..<13] Map.empty) ''BTCUSDT'' =
     [0, 0, 0, 0, 0, 0, 0, 0, 0, 0, 0]"
    by (simp add: feedTicks_def tickCall_def updateCVD_def getOrEmpty_def backfillLoop.simps
      cvdStep_def trimHistory_def maxHistoryLength_def lastOrZero_def upt_rec)
  note r = flat_prices_flat_cvd [OF h1 h2, of "[10, 20, 30, 40, 50, 60, 70, 80, 90, 100, 110, 120]" "[1..<13]", unfolded Let_def]
  from s h2 v r show ?thesis by (intro conjI) blast+
qed

section \<open>Strategy condition evaluator\<close>

lemma everyBoolean_simps [simp]:
  "everyBoolean [] = True"
  "everyBoolean ((k, b) # cs) = (b \<and> everyBoolean cs)"
  by (simp_all add: everyBoolean_def)

text \<open>
  C3. When the optional condition flags useBollingerLower, macdLineAboveSignal,
  cvdSlopePositive, useMA20 and useMA34 (intraday), useMA8 and useMA21 (scalping) are all
  off, every entry of the condition vector is true except possibly RSI and volume, for
  the intraday and for the scalping evaluator alike, and the aggregate decision is
  \<open>rsiMin \<le> RSI \<le> rsiMax\<close> and \<open>volume > avgVolume * volumeMultiplier\<close>.
\<close>

theorem optional_flags_off:
  assumes "\<not> useBollingerLower config" and "\<not> macdLineAboveSignal config"
    and "\<not> cvdSlopePositive config"
    and "\<not> useMA20 config" and "\<not> useMA34 config"
    and "\<not> useMA8 config" and "\<not> useMA21 config"
  shows "let rsiCondition = (rsiMin config \<le> rsi indicators \<and> rsi indicators \<le> rsiMax config);
             volumeCondition =
               (volume indicators > avgVolume indicators * volumeMultiplier config);
             intraday = checkIntradayConditions config currentPrice indicators;
             scalping = checkScalpingConditions config currentPrice indicators
         in conditions intraday =
              [(''bollingerBands'', True), (''macd'', True), (''rsi'', rsiCondition),
               (''movingAverages'', True), (''volume'', volumeCondition), (''cvd'', True)] \<and>
            allConditionsMet intraday = (rsiCondition \<and> volumeCondition) \<and>
            conditions scalping =
              [(''rsi'', rsiCondition), (''movingAverages'', True), (''bollingerBands'', True),
               (''macd'', True), (''volume'', volumeCondition), (''cvd'', True)] \<and>
            allConditionsMet scalping = (rsiCondition \<and> volumeCondition)"
  using assms
  by (simp add: checkIntradayConditions_def checkScalpingConditions_def Let_def)

theorem optional_flags_off_witness:
  "\<not> useBollingerLower flagsOffConfig \<and> \<not> macdLineAboveSignal flagsOffConfig \<and>
   \<not> cvdSlopePositive flagsOffConfig \<and> \<not> useMA20 flagsOffConfig \<and> \<not> useMA34 flagsOffConfig \<and>
   \<not> useMA8 flagsOffConfig \<and> \<not> useMA21 flagsOffConfig \<and>
   allConditionsMet (checkIntradayConditions flagsOffConfig 100 (snapshotWithRsi 30)) \<and>
   allConditionsMet (checkScalpingConditions flagsOffConfig 100 (snapshotWithRsi 30)) \<and>
   \<not> allConditionsMet (checkIntradayConditions flagsOffConfig 100 (snapshotWithRsi 50)) \<and>
   \<not> allConditionsMet (checkScalpingConditions flagsOffConfig 100 (snapshotWithRsi 50))"
proof -
  have f: "\<not> useBollingerLower flagsOffConfig" "\<not> macdLineAboveSignal flagsOffConfig"
    "\<not> cvdSlopePositive flagsOffConfig" "\<not> useMA20 flagsOffConfig" "\<not> useMA34 flagsOffConfig"
    "\<not> useMA8 flagsOffConfig" "\<not> useMA21 flagsOffConfig"
    by (simp_all add: flagsOffConfig_def)
  show ?thesis
    using f optional_flags_off [OF f, of "snapshotWithRsi 30" 100]
      optional_flags_off [OF f, of "snapshotWithRsi 50" 100]
    by (simp add: Let_def snapshotWithRsi_def flagsOffConfig_def)
qed

section \<open>Edge detection and signal hand-off\<close>

lemma updateConditions_logged:
  "fst (updateConditions symbol strategy cs state) =
     (if everyBoolean cs \<and> \<not> isAllGreen state symbol strategy then [AllGreen strategy symbol]
      else [])"
  by (simp add: updateConditions_def isAllGreen_def Let_def split: option.splits)

lemma updateConditions_isAllGreen:
  "isAllGreen (snd (updateConditions symbol strategy cs state)) symbol strategy = everyBoolean cs"
  by (simp add: updateConditions_def isAllGreen_def Let_def split: option.splits)

lemma length_trackerRun [simp]: "length (trackerRun symbol strategy cs state) = length cs"
  by (induction cs arbitrary: state) (simp_all add: split_beta Let_def)

lemma trackerRun_nth:
  "i < length cs \<Longrightarrow>
     trackerRun symbol strategy cs state ! i =
       (if everyBoolean (cs ! i) \<and>
           \<not> (if i = 0 then isAllGreen state symbol strategy else everyBoolean (cs ! (i - 1)))
        then [AllGreen strategy symbol] else [])"
proof (induction cs arbitrary: state i)
  case Nil
  then show ?case by simp
next
  case (Cons c cs)
  obtain logged state' where u: "updateConditions symbol strategy c state = (logged, state')"
    by (cases "updateConditions symbol strategy c state")
  show ?case
  proof (cases i)
    case 0
    then show ?thesis
      using u updateConditions_logged [of symbol strategy c state] by simp
  next
    case (Suc j)
    with Cons.prems have j: "j < length cs" by simp
    have g: "isAllGreen state' symbol strategy = everyBoolean c"
      using u updateConditions_isAllGreen [of symbol strategy c state] by simp
    show ?thesis
      using Suc u Cons.IH [OF j, of state'] g
      by (cases j) simp_all
  qed
qed

lemma allConditionsMet_scalping:
  "allConditionsMet (checkScalpingConditions config p ind) =
     everyBoolean (conditions (checkScalpingConditions config p ind))"
  by (simp add: checkScalpingConditions_def Let_def)

lemma signalOf_intraday:
  "signalOf (checkIntradayConditions config p ind) =
     (if allConditionsMet (checkIntradayConditions config p ind) then LONG else WAIT)"
  by (simp add: checkIntradayConditions_def Let_def del: everyBoolean_simps)

lemma signalOf_scalping:
  "signalOf (checkScalpingConditions config p ind) =
     (if allConditionsMet (checkScalpingConditions config p ind) then LONG else WAIT)"
  by (simp add: checkScalpingConditions_def Let_def del: everyBoolean_simps)

lemma prices_intraday:
  "entryPrice (checkIntradayConditions config p ind) = p"
  "takeProfit (checkIntradayConditions config p ind) = p * (1 + takeProfitPercent config / 100)"
  "stopLoss (checkIntradayConditions config p ind) = p * (1 - stopLossPercent config / 100)"
  by (simp_all add: checkIntradayConditions_def Let_def)

lemma prices_scalping:
  "entryPrice (checkScalpingConditions config p ind) = p"
  "takeProfit (checkScalpingConditions config p ind) = p * (1 + takeProfitPercent config / 100)"
  "stopLoss (checkScalpingConditions config p ind) = p * (1 - stopLossPercent config / 100)"
  by (simp_all add: checkScalpingConditions_def Let_def)

lemma intradayRun_saved:
  "i < length inputs \<Longrightarrow>
     intradayRun config symbol inputs ! i =
       (if intradayAggregates config inputs ! i
        then [SaveSignal symbol ''intraday'' LONG (fst (inputs ! i))
                (fst (inputs ! i) * (1 + takeProfitPercent config / 100))
                (fst (inputs ! i) * (1 - stopLossPercent config / 100))
                (conditions (checkIntradayConditions config (fst (inputs ! i)) (snd (inputs ! i))))]
        else [])"
  by (simp add: intradayRun_def intradayAggregates_def IntradayStrategy_def
      saveSignalBlock_def split_beta signalOf_intraday prices_intraday)

lemma saveSignalBlock_scalping:
  "saveSignalBlock symbol ''scalping'' (checkScalpingConditions config p ind) =
     (if allConditionsMet (checkScalpingConditions config p ind)
      then [SaveSignal symbol ''scalping'' LONG p
              (p * (1 + takeProfitPercent config / 100))
              (p * (1 - stopLossPercent config / 100))
              (conditions (checkScalpingConditions config p ind))]
      else [])"
  by (simp add: saveSignalBlock_def signalOf_scalping prices_scalping)

lemma scalpingRun_nth:
  "i < length inputs \<Longrightarrow>
     scalpingRun config symbol inputs state ! i =
       (saveSignalBlock symbol ''scalping''
          (checkScalpingConditions config (fst (inputs ! i)) (snd (inputs ! i))),
        if scalpingAggregates config inputs ! i \<and>
           \<not> (if i = 0 then isAllGreen state symbol ''scalping''
               else scalpingAggregates config inputs ! (i - 1))
        then [AllGreen ''scalping'' symbol] else [])"
proof (induction inputs arbitrary: state i)
  case Nil
  then show ?case by simp
next
  case (Cons x rest)
  obtain p ind where x: "x = (p, ind)" by (cases x)
  let ?r = "checkScalpingConditions config p ind"
  obtain logged state' where
    u: "updateConditions symbol ''scalping'' (conditions ?r) state = (logged, state')"
    by (cases "updateConditions symbol ''scalping'' (conditions ?r) state")
  have l: "logged = (if allConditionsMet ?r \<and> \<not> isAllGreen state symbol ''scalping''
                     then [AllGreen ''scalping'' symbol] else [])"
    using u updateConditions_logged [of symbol "''scalping''" "conditions ?r" state]
    by (simp add: allConditionsMet_scalping)
  have g: "isAllGreen state' symbol ''scalping'' = allConditionsMet ?r"
    using u updateConditions_isAllGreen [of symbol "''scalping''" "conditions ?r" state]
    by (simp add: allConditionsMet_scalping)
  have run: "scalpingRun config symbol (x # rest) state =
      (saveSignalBlock symbol ''scalping'' ?r, logged) # scalpingRun config symbol rest state'"
    by (simp add: x ScalpingStrategy_def Let_def u)
  show ?case
  proof (cases i)
    case 0
    then show ?thesis
      unfolding run by (simp add: l x scalpingAggregates_def)
  next
    case (Suc j)
    with Cons.prems have j: "j < length rest" by simp
    show ?thesis
      unfolding run using Suc Cons.IH [OF j, of state'] g
      by (cases j) (simp_all add: x scalpingAggregates_def)
  qed
qed

lemma updateConditions_frame:
  "(symbol', strategy') \<noteq> (symbol, strategy) \<Longrightarrow>
     isAllGreen (snd (updateConditions symbol' strategy' cs state)) symbol strategy =
       isAllGreen state symbol strategy"
  by (auto simp add: updateConditions_def isAllGreen_def Let_def split: option.splits)

lemma plainState_fun_upd:
  assumes "plainState state" and "plainKey symbol"
    and "\<forall>k\<in>set objectPrototypeKeys. m k = None"
  shows "plainState (state(symbol \<mapsto> m))"
proof -
  have "ran (state(symbol \<mapsto> m)) \<subseteq> insert m (ran state)"
    by (auto simp add: ran_def)
  with assms show ?thesis
    unfolding plainState_def plainKey_def by auto
qed

lemma updateConditions_plainState:
  assumes "plainState state" and "plainKey symbol" and "plainKey strategy"
  shows "plainState (snd (updateConditions symbol strategy cs state))"
proof -
  define bySymbol where "bySymbol = (case state symbol of None \<Rightarrow> Map.empty | Some m \<Rightarrow> m)"
  have inner: "\<forall>k\<in>set objectPrototypeKeys. bySymbol k = None"
  proof (cases "state symbol")
    case None
    then show ?thesis by (simp add: bySymbol_def)
  next
    case (Some m)
    then have "m \<in> ran state" by (auto simp add: ran_def)
    with assms(1) Some show ?thesis by (simp add: bySymbol_def plainState_def)
  qed
  have upd: "\<forall>k\<in>set objectPrototypeKeys. (bySymbol(strategy \<mapsto> v)) k = None" for v
    using inner assms(3) by (auto simp add: plainKey_def)
  have "\<exists>v. snd (updateConditions symbol strategy cs state) =
          state(symbol \<mapsto> bySymbol(strategy \<mapsto> v))"
    by (auto simp add: updateConditions_def Let_def bySymbol_def split: option.splits)
  then obtain v where "snd (updateConditions symbol strategy cs state) =
          state(symbol \<mapsto> bySymbol(strategy \<mapsto> v))" ..
  then show ?thesis
    by (simp only: plainState_fun_upd [OF assms(1,2) upd [of v]])
qed

text \<open>
  C1, as the code has it. For every (symbol, strategy) pair of plain keys whose edge
  state is false at the start and every sequence of condition vectors, the call of
  updateConditions at index \<open>i\<close> logs the all-green trigger exactly when the aggregate
  decision is true at \<open>i\<close> and was not true at \<open>i - 1\<close>, and logs nothing otherwise;
  the scalping component, which drives the tracker, logs accordingly; a call for another
  pair leaves the edge state of this pair as it was, and a call with plain keys leaves a
  plain state plain. The block of the intraday and scalping components that saves the
  signal is not edge-triggered: at every evaluation whose aggregate decision is true it
  hands exactly one LONG signal, with the entry, take-profit and stop-loss prices and the
  condition vector of that evaluation, to the persistence sink, and at every other
  evaluation it hands nothing.
\<close>

theorem edge_trigger_and_signal_handoff:
  "(plainKey symbol \<and> plainKey strategy \<and> plainState state \<and>
    \<not> isAllGreen state symbol strategy \<and> i < length cs \<longrightarrow>
      trackerRun symbol strategy cs state ! i =
        (if risingEdge (map everyBoolean cs) i then [AllGreen strategy symbol] else [])) \<and>
   (i < length inputs \<longrightarrow>
      intradayRun config symbol inputs ! i =
        (if intradayAggregates config inputs ! i
         then [SaveSignal symbol ''intraday'' LONG (fst (inputs ! i))
                 (fst (inputs ! i) * (1 + takeProfitPercent config / 100))
                 (fst (inputs ! i) * (1 - stopLossPercent config / 100))
                 (conditions
                    (checkIntradayConditions config (fst (inputs ! i)) (snd (inputs ! i))))]
         else []) \<and>
      length (intradayRun config symbol inputs ! i) =
        (if intradayAggregates config inputs ! i then 1 else 0)) \<and>
   (plainKey symbol \<and> plainState state \<and>
    \<not> isAllGreen state symbol ''scalping'' \<and> i < length inputs \<longrightarrow>
      fst (scalpingRun config symbol inputs state ! i) =
        (if scalpingAggregates config inputs ! i
         then [SaveSignal symbol ''scalping'' LONG (fst (inputs ! i))
                 (fst (inputs ! i) * (1 + takeProfitPercent config / 100))
                 (fst (inputs ! i) * (1 - stopLossPercent config / 100))
                 (conditions
                    (checkScalpingConditions config (fst (inputs ! i)) (snd (inputs ! i))))]
         else []) \<and>
      length (fst (scalpingRun config symbol inputs state ! i)) =
        (if scalpingAggregates config inputs ! i then 1 else 0) \<and>
      snd (scalpingRun config symbol inputs state ! i) =
        (if risingEdge (scalpingAggregates config inputs) i then [AllGreen ''scalping'' symbol]
         else [])) \<and>
   (plainKey symbol \<and> plainKey strategy \<and> plainKey symbol' \<and> plainKey strategy' \<and>
    plainState state \<and> (symbol', strategy') \<noteq> (symbol, strategy) \<longrightarrow>
      isAllGreen (snd (updateConditions symbol' strategy' cs' state)) symbol strategy =
        isAllGreen state symbol strategy) \<and>
   (plainKey symbol \<and> plainKey strategy \<and> plainState state \<longrightarrow>
      plainState (snd (updateConditions symbol strategy cs' state))) \<and>
   plainKey ''scalping'' \<and> plainKey ''intraday''"
proof -
  have c1: "trackerRun symbol strategy cs state ! i =
        (if risingEdge (map everyBoolean cs) i then [AllGreen strategy symbol] else [])"
    if "\<not> isAllGreen state symbol strategy" "i < length cs"
  proof -
    from that have "i - 1 < length cs" by arith
    with that show ?thesis
      by (simp add: trackerRun_nth risingEdge_def)
  qed
  have c2: "intradayRun config symbol inputs ! i =
        (if intradayAggregates config inputs ! i
         then [SaveSignal symbol ''intraday'' LONG (fst (inputs ! i))
                 (fst (inputs ! i) * (1 + takeProfitPercent config / 100))
                 (fst (inputs ! i) * (1 - stopLossPercent config / 100))
                 (conditions
                    (checkIntradayConditions config (fst (inputs ! i)) (snd (inputs ! i))))]
         else [])"
    if "i < length inputs"
    using that by (rule intradayRun_saved)
  have c2': "length (intradayRun config symbol inputs ! i) =
        (if intradayAggregates config inputs ! i then 1 else 0)"
    if "i < length inputs"
    by (simp add: c2 [OF that])
  have c3: "fst (scalpingRun config symbol inputs state ! i) =
        (if scalpingAggregates config inputs ! i
         then [SaveSignal symbol ''scalping'' LONG (fst (inputs ! i))
                 (fst (inputs ! i) * (1 + takeProfitPercent config / 100))
                 (fst (inputs ! i) * (1 - stopLossPercent config / 100))
                 (conditions
                    (checkScalpingConditions config (fst (inputs ! i)) (snd (inputs ! i))))]
         else [])"
    if "i < length inputs"
    using that
    by (simp add: scalpingRun_nth saveSignalBlock_scalping scalpingAggregates_def split_beta)
  have c3': "length (fst (scalpingRun config symbol inputs state ! i)) =
        (if scalpingAggregates config inputs ! i then 1 else 0)"
    if "i < length inputs"
    by (simp add: c3 [OF that])
  have c4: "snd (scalpingRun config symbol inputs state ! i) =
        (if risingEdge (scalpingAggregates config inputs) i then [AllGreen ''scalping'' symbol]
         else [])"
    if "\<not> isAllGreen state symbol ''scalping''" "i < length inputs"
    using that by (simp add: scalpingRun_nth risingEdge_def)
  have c5: "isAllGreen (snd (updateConditions symbol' strategy' cs' state)) symbol strategy =
        isAllGreen state symbol strategy"
    if "(symbol', strategy') \<noteq> (symbol, strategy)"
    using that by (rule updateConditions_frame)
  have c6: "plainState (snd (updateConditions symbol strategy cs' state))"
    if "plainState state" "plainKey symbol" "plainKey strategy"
    using that by (rule updateConditions_plainState)
  have c7: "plainKey ''scalping''" "plainKey ''intraday''"
    by (simp_all add: plainKey_def objectPrototypeKeys_def)
  from c1 c2 c2' c3 c3' c4 c5 c6 c7 show ?thesis by blast
qed

theorem edge_trigger_and_signal_handoff_witness:
  "plainKey ''BTCUSDT'' \<and> plainKey ''ETHUSDT'' \<and> plainKey ''scalping'' \<and>
   plainKey ''intraday'' \<and> plainState Map.empty \<and>
   \<not> isAllGreen Map.empty ''BTCUSDT'' ''scalping'' \<and>
   \<not> isAllGreen Map.empty ''BTCUSDT'' ''intraday'' \<and>
   length sixEvaluations = 6 \<and>
   scalpingAggregates flagsOffConfig sixEvaluations = [False, True, True, True, False, True] \<and>
   intradayAggregates flagsOffConfig sixEvaluations = [False, True, True, True, False, True] \<and>
   snd (scalpingRun flagsOffConfig ''BTCUSDT'' sixEvaluations Map.empty ! 1) =
     [AllGreen ''scalping'' ''BTCUSDT''] \<and>
   snd (scalpingRun flagsOffConfig ''BTCUSDT'' sixEvaluations Map.empty ! 2) = [] \<and>
   length (fst (scalpingRun flagsOffConfig ''BTCUSDT'' sixEvaluations Map.empty ! 2)) = 1 \<and>
   length (intradayRun flagsOffConfig ''BTCUSDT'' sixEvaluations ! 2) = 1 \<and>
   intradayRun flagsOffConfig ''BTCUSDT'' sixEvaluations ! 2 =
     [SaveSignal ''BTCUSDT'' ''intraday'' LONG 100 102 99
        [(''bollingerBands'', True), (''macd'', True), (''rsi'', True),
         (''movingAverages'', True), (''volume'', True), (''cvd'', True)]] \<and>
   length (intradayRun flagsOffConfig ''BTCUSDT'' sixEvaluations ! 4) = 0 \<and>
   map snd (scalpingRun flagsOffConfig ''BTCUSDT'' sixEvaluations Map.empty) =
     [[], [AllGreen ''scalping'' ''BTCUSDT''], [], [], [], [AllGreen ''scalping'' ''BTCUSDT'']] \<and>
   (''ETHUSDT'', ''scalping'') \<noteq> (''BTCUSDT'', ''scalping'') \<and>
   isAllGreen (snd (updateConditions ''ETHUSDT'' ''scalping'' [(''rsi'', True)] Map.empty))
     ''BTCUSDT'' ''scalping'' = False \<and>
   plainState (snd (updateConditions ''BTCUSDT'' ''scalping'' [(''rsi'', True)] Map.empty)) \<and>
   trackerRun ''BTCUSDT'' ''intraday''
     [[(''rsi'', False)], [(''rsi'', True)], [(''rsi'', True)], [(''rsi'', True)],
      [(''rsi'', False)], [(''rsi'', True)]] Map.empty ! 1 = [AllGreen ''intraday'' ''BTCUSDT''] \<and>
   trackerRun ''BTCUSDT'' ''intraday''
     [[(''rsi'', False)], [(''rsi'', True)], [(''rsi'', True)], [(''rsi'', True)],
      [(''rsi'', False)], [(''rsi'', True)]] Map.empty ! 2 = [] \<and>
   trackerRun ''BTCUSDT'' ''intraday''
     [[(''rsi'', False)], [(''rsi'', True)], [(''rsi'', True)], [(''rsi'', True)],
      [(''rsi'', False)], [(''rsi'', True)]] Map.empty =
     [[], [AllGreen ''intraday'' ''BTCUSDT''], [], [], [], [AllGreen ''intraday'' ''BTCUSDT'']]"
proof -
  let ?vs = "[[(''rsi'', False)], [(''rsi'', True)], [(''rsi'', True)], [(''rsi'', True)],
      [(''rsi'', False)], [(''rsi'', True)]]"
  have k: "plainKey ''BTCUSDT''" "plainKey ''ETHUSDT''" "plainKey ''scalping''"
    "plainKey ''intraday''"
    by (simp_all add: plainKey_def objectPrototypeKeys_def)
  have ps: "plainState Map.empty" by (simp add: plainState_def)
  have h: "\<not> isAllGreen Map.empty ''BTCUSDT'' ''scalping''" by (simp add: isAllGreen_def)
  have hi: "\<not> isAllGreen Map.empty ''BTCUSDT'' ''intraday''" by (simp add: isAllGreen_def)
  have len: "length sixEvaluations = 6" by (simp add: sixEvaluations_def)
  have agg: "scalpingAggregates flagsOffConfig sixEvaluations =
      [False, True, True, True, False, True]"
    by (simp add: scalpingAggregates_def sixEvaluations_def checkScalpingConditions_def
      flagsOffConfig_def snapshotWithRsi_def Let_def)
  have iagg: "intradayAggregates flagsOffConfig sixEvaluations =
      [False, True, True, True, False, True]"
    by (simp add: intradayAggregates_def sixEvaluations_def checkIntradayConditions_def
      flagsOffConfig_def snapshotWithRsi_def Let_def)
  have edges: "risingEdge (map everyBoolean ?vs) 1" "\<not> risingEdge (map everyBoolean ?vs) 2"
    by (simp_all add: risingEdge_def)
  note tr1 = edge_trigger_and_signal_handoff
    [where symbol = "''BTCUSDT''" and strategy = "''intraday''" and state = Map.empty
       and i = 1 and cs = ?vs]
  note tr2 = edge_trigger_and_signal_handoff
    [where symbol = "''BTCUSDT''" and strategy = "''intraday''" and state = Map.empty
       and i = 2 and cs = ?vs]
  from tr1 k ps hi
  have t1: "trackerRun ''BTCUSDT'' ''intraday'' ?vs Map.empty ! 1 =
      (if risingEdge (map everyBoolean ?vs) 1 then [AllGreen ''intraday'' ''BTCUSDT''] else [])"
    by simp
  from tr2 k ps hi
  have t2: "trackerRun ''BTCUSDT'' ''intraday'' ?vs Map.empty ! 2 =
      (if risingEdge (map everyBoolean ?vs) 2 then [AllGreen ''intraday'' ''BTCUSDT''] else [])"
    by simp
  have t1': "trackerRun ''BTCUSDT'' ''intraday'' ?vs Map.empty ! 1 =
      [AllGreen ''intraday'' ''BTCUSDT'']"
    by (simp only: t1 edges if_True)
  have t2': "trackerRun ''BTCUSDT'' ''intraday'' ?vs Map.empty ! 2 = []"
    by (simp only: t2 edges if_False)
  have tall: "trackerRun ''BTCUSDT'' ''intraday'' ?vs Map.empty =
     [[], [AllGreen ''intraday'' ''BTCUSDT''], [], [], [], [AllGreen ''intraday'' ''BTCUSDT'']]"
    by (simp add: updateConditions_def Let_def)
  note one = edge_trigger_and_signal_handoff
    [where symbol = "''BTCUSDT''" and strategy = "''scalping''" and state = Map.empty
       and i = 1 and inputs = sixEvaluations and config = flagsOffConfig
       and symbol' = "''ETHUSDT''" and strategy' = "''scalping''"
       and cs' = "[(''rsi'', True)]"]
  note two = edge_trigger_and_signal_handoff
    [where symbol = "''BTCUSDT''" and state = Map.empty
       and i = 2 and inputs = sixEvaluations and config = flagsOffConfig]
  note four = edge_trigger_and_signal_handoff
    [where symbol = "''BTCUSDT''" and i = 4 and inputs = sixEvaluations
       and config = flagsOffConfig]
  from one k ps h len have a:
    "snd (scalpingRun flagsOffConfig ''BTCUSDT'' sixEvaluations Map.empty ! 1) =
       [AllGreen ''scalping'' ''BTCUSDT'']"
    by (simp add: agg risingEdge_def)
  from two k ps h len have b:
    "snd (scalpingRun flagsOffConfig ''BTCUSDT'' sixEvaluations Map.empty ! 2) = []"
    "length (fst (scalpingRun flagsOffConfig ''BTCUSDT'' sixEvaluations Map.empty ! 2)) = 1"
    "length (intradayRun flagsOffConfig ''BTCUSDT'' sixEvaluations ! 2) = 1"
    by (simp_all add: agg iagg risingEdge_def)
  from two len have "intradayRun flagsOffConfig ''BTCUSDT'' sixEvaluations ! 2 =
      [SaveSignal ''BTCUSDT'' ''intraday'' LONG (fst (sixEvaluations ! 2))
         (fst (sixEvaluations ! 2) * (1 + takeProfitPercent flagsOffConfig / 100))
         (fst (sixEvaluations ! 2) * (1 - stopLossPercent flagsOffConfig / 100))
         (conditions (checkIntradayConditions flagsOffConfig (fst (sixEvaluations ! 2))
            (snd (sixEvaluations ! 2))))]"
    by (simp add: iagg)
  then have c: "intradayRun flagsOffConfig ''BTCUSDT'' sixEvaluations ! 2 =
     [SaveSignal ''BTCUSDT'' ''intraday'' LONG 100 102 99
        [(''bollingerBands'', True), (''macd'', True), (''rsi'', True),
         (''movingAverages'', True), (''volume'', True), (''cvd'', True)]]"
    by (simp add: sixEvaluations_def checkIntradayConditions_def flagsOffConfig_def
      snapshotWithRsi_def Let_def)
  from four len have d: "length (intradayRun flagsOffConfig ''BTCUSDT'' sixEvaluations ! 4) = 0"
    by (simp add: iagg)
  have all: "map snd (scalpingRun flagsOffConfig ''BTCUSDT'' sixEvaluations Map.empty) =
     [[], [AllGreen ''scalping'' ''BTCUSDT''], [], [], [], [AllGreen ''scalping'' ''BTCUSDT'']]"
    by (simp add: ScalpingStrategy_def saveSignalBlock_def updateConditions_def
      sixEvaluations_def checkScalpingConditions_def flagsOffConfig_def snapshotWithRsi_def
      Let_def)
  have other: "(''ETHUSDT'', ''scalping'') \<noteq> (''BTCUSDT'', ''scalping'')" by simp
  from one other k ps h have frame:
    "isAllGreen (snd (updateConditions ''ETHUSDT'' ''scalping'' [(''rsi'', True)] Map.empty))
       ''BTCUSDT'' ''scalping'' = False"
    by blast
  from one k ps have keep:
    "plainState (snd (updateConditions ''BTCUSDT'' ''scalping'' [(''rsi'', True)] Map.empty))"
    by blast
  from k ps h hi len agg iagg a b c d all other frame keep t1' t2' tall
  show ?thesis by (intro conjI)
qed

text \<open>
  C1, as stated, asks for a signal at the rising edges only. Over six evaluations with
  aggregate decisions false, true, true, true, false, true the intraday component saves
  a signal at the indices 1, 2, 3 and 5: four signals, and one at index 2, which is not
  a rising edge.
\<close>

theorem signal_saved_while_conditions_hold:
  "intradayAggregates flagsOffConfig sixEvaluations = [False, True, True, True, False, True] \<and>
   map length (intradayRun flagsOffConfig ''BTCUSDT'' sixEvaluations) = [0, 1, 1, 1, 0, 1] \<and>
   \<not> risingEdge (intradayAggregates flagsOffConfig sixEvaluations) 2 \<and>
   intradayRun flagsOffConfig ''BTCUSDT'' sixEvaluations ! 2 \<noteq> []"
  by (simp add: intradayAggregates_def intradayRun_def IntradayStrategy_def saveSignalBlock_def
      sixEvaluations_def checkIntradayConditions_def flagsOffConfig_def snapshotWithRsi_def
      risingEdge_def Let_def)

end
